theory Spec2Isabelle
  imports Main "HOL-Library.AList" "HOL-Library.Char_ord" "HOL-Library.List_Lexorder"
begin

section \<open>pandera.schema_model: data model\<close>

text \<open>
  The theory embeds \<^verbatim>\<open>src/pandera/schema_model.py\<close>: the compiler from a
  \<^verbatim>\<open>SchemaModel\<close> class declaration to a \<^verbatim>\<open>DataFrameSchema\<close>.
  Python dictionaries keep insertion order, so they are association lists:
  \<^verbatim>\<open>d[k] = v\<close> is \<^const>\<open>AList.update\<close> (overwrite in place, or append),
  \<^verbatim>\<open>d.pop(k, None)\<close> is \<^const>\<open>AList.delete\<close>, \<^verbatim>\<open>d.get(k)\<close> is
  \<^const>\<open>map_of\<close>. Every \<^verbatim>\<open>raise\<close> is an \<open>Inl\<close> result.
\<close>

subsection \<open>Errors\<close>

text \<open>
  The five \<^verbatim>\<open>SchemaInitError\<close> messages of the module, by the data they
  interpolate:
  \<^item> \<open>NotAnnotated c\<close>: "\<open>c\<close> is not annotated."
  \<^item> \<open>NonExistingField fn field\<close>: "Validator \<open>fn\<close> is assigned to a non-existing
    field '\<open>field\<close>'."
  \<^item> \<open>NotAField field cls\<close>: "'\<open>field\<close>' can only be assigned a 'Field', not a
    '\<open>cls\<close>.'" (\<open>cls\<close> names the class of the offending value)
  \<^item> \<open>IndexOptional field\<close>: "Index '\<open>field\<close>' cannot be Optional."
  \<^item> \<open>InvalidAnnotation field\<close>: "Invalid annotation for \<open>field\<close>. ... should be
    of type Series or Index."
\<close>

datatype init_error =
    NotAnnotated string
  | NonExistingField string string
  | NotAField string string
  | IndexOptional string
  | InvalidAnnotation string

text \<open>
  Besides \<^verbatim>\<open>SchemaInitError\<close> the code can raise through the language and
  the libraries it calls: \<^verbatim>\<open>IndexError\<close> from \<^verbatim>\<open>get_args(annotation)[0]\<close>,
  \<^verbatim>\<open>TypeError\<close> from a keyword passed twice, \<^verbatim>\<open>re.error\<close> from
  \<^verbatim>\<open>re.compile\<close> and \<^verbatim>\<open>AttributeError\<close> from \<^verbatim>\<open>cls.__schema__\<close>.
\<close>

datatype error =
    SchemaInitError init_error
  | IndexError
  | TypeError
  | ReError
  | AttributeError

subsection \<open>Checks and field descriptors\<close>

text \<open>Argument values handed to the check factories (\<^verbatim>\<open>Any\<close> in the source).\<close>

datatype argval =
    ANone
  | ABool bool
  | AInt int
  | AStr string
  | AList "argval list"

text \<open>
  Modelled from the spec: \<^verbatim>\<open>pandera.checks.Check\<close> is not under src/. A check is
  the opaque predicate object a factory returns, recorded as the factory called,
  its positional arguments and its keyword arguments.
\<close>

datatype check = Check string "argval list" "(string \<times> argval) list"

text \<open>
  \<^verbatim>\<open>CheckList\<close>: \<^verbatim>\<open>None\<close>, a single check or a list of checks.
\<close>

datatype checklist = CLNone | CLSingle check | CLList "check list"

text \<open>
  \<^verbatim>\<open>_to_checklist\<close>: \<^verbatim>\<open>checks or []\<close> turns \<^verbatim>\<open>None\<close> (and an empty
  list) into the empty list; a single check is wrapped.
\<close>

fun to_checklist :: "checklist \<Rightarrow> check list" where
  "to_checklist CLNone = []"
| "to_checklist (CLSingle c) = [c]"
| "to_checklist (CLList cs) = cs"

record FieldInfo =
  fi_checks :: "check list"
  fi_nullable :: bool
  fi_allow_duplicates :: bool
  fi_coerce :: bool
  fi_regex :: bool

text \<open>\<^verbatim>\<open>FieldInfo.__init__\<close>.\<close>

definition FieldInfo_init :: "checklist \<Rightarrow> bool \<Rightarrow> bool \<Rightarrow> bool \<Rightarrow> bool \<Rightarrow> FieldInfo" where
  "FieldInfo_init checks nullable allow_duplicates coerce regex =
     \<lparr>fi_checks = to_checklist checks, fi_nullable = nullable,
      fi_allow_duplicates = allow_duplicates, fi_coerce = coerce, fi_regex = regex\<rparr>"

subsection \<open>The Field constructor\<close>

text \<open>
  The keyword arguments of \<^verbatim>\<open>Field\<close>. A constraint that was not passed is
  \<^const>\<open>ANone\<close> (\<^verbatim>\<open>None\<close>); the two dict-valued constraints are \<open>None\<close> or the
  dict's items.
\<close>

record Field_args =
  arg_eq :: argval
  arg_neq :: argval
  arg_gt :: argval
  arg_ge :: argval
  arg_lt :: argval
  arg_le :: argval
  arg_in_range :: "(string \<times> argval) list option"
  arg_isin :: argval
  arg_notin :: argval
  arg_str_contains :: argval
  arg_str_endswith :: argval
  arg_str_length :: "(string \<times> argval) list option"
  arg_str_matches :: argval
  arg_str_startswith :: argval
  arg_nullable :: bool
  arg_allow_duplicates :: bool
  arg_coerce :: bool
  arg_regex :: bool
  arg_ignore_na :: bool
  arg_raise_warning :: bool
  arg_n_failure_cases :: int

text \<open>The defaults of the signature of \<^verbatim>\<open>Field\<close>.\<close>

definition Field_defaults :: Field_args where
  "Field_defaults =
     \<lparr>arg_eq = ANone, arg_neq = ANone, arg_gt = ANone, arg_ge = ANone, arg_lt = ANone,
      arg_le = ANone, arg_in_range = None, arg_isin = ANone, arg_notin = ANone,
      arg_str_contains = ANone, arg_str_endswith = ANone, arg_str_length = None,
      arg_str_matches = ANone, arg_str_startswith = ANone,
      arg_nullable = False, arg_allow_duplicates = True, arg_coerce = False,
      arg_regex = False, arg_ignore_na = True, arg_raise_warning = False,
      arg_n_failure_cases = 10\<rparr>"

text \<open>
  \<^verbatim>\<open>_check_dispatch\<close>, in the order the dict literal lists it: the argument
  name and the \<^verbatim>\<open>Check\<close> factory it selects.
\<close>

definition check_dispatch :: "(string \<times> string) list" where
  "check_dispatch =
     [(''eq'', ''equal_to''), (''neq'', ''not_equal_to''), (''gt'', ''greater_than''),
      (''ge'', ''greater_than_or_equal_to''), (''lt'', ''less_than''),
      (''le'', ''less_than_or_equal_to''), (''in_range'', ''in_range''),
      (''isin'', ''isin''), (''notin'', ''notin''),
      (''str_contains'', ''str_contains''), (''str_endswith'', ''str_endswith''),
      (''str_matches'', ''str_matches''), (''str_length'', ''str_length''),
      (''str_startswith'', ''str_startswith'')]"

text \<open>
  \<^verbatim>\<open>args[arg_name]\<close> for the names of the dispatch table: a plain value, or
  the dict of one of the two dict-valued arguments.
\<close>

datatype field_arg = Plain argval | DictArg "(string \<times> argval) list option"

definition args_lookup :: "Field_args \<Rightarrow> string \<Rightarrow> field_arg" where
  "args_lookup a n =
     (if n = ''eq'' then Plain (arg_eq a)
      else if n = ''neq'' then Plain (arg_neq a)
      else if n = ''gt'' then Plain (arg_gt a)
      else if n = ''ge'' then Plain (arg_ge a)
      else if n = ''lt'' then Plain (arg_lt a)
      else if n = ''le'' then Plain (arg_le a)
      else if n = ''in_range'' then DictArg (arg_in_range a)
      else if n = ''isin'' then Plain (arg_isin a)
      else if n = ''notin'' then Plain (arg_notin a)
      else if n = ''str_contains'' then Plain (arg_str_contains a)
      else if n = ''str_endswith'' then Plain (arg_str_endswith a)
      else if n = ''str_length'' then DictArg (arg_str_length a)
      else if n = ''str_matches'' then Plain (arg_str_matches a)
      else Plain (arg_str_startswith a))"

text \<open>\<^verbatim>\<open>check_kwargs\<close>: the three evaluation options every factory receives.\<close>

definition check_kwargs :: "Field_args \<Rightarrow> (string \<times> argval) list" where
  "check_kwargs a =
     [(''ignore_na'', ABool (arg_ignore_na a)),
      (''raise_warning'', ABool (arg_raise_warning a)),
      (''n_failure_cases'', AInt (arg_n_failure_cases a))]"

text \<open>
  The loop of \<^verbatim>\<open>Field\<close> over the dispatch table. An absent argument is
  skipped. \<^verbatim>\<open>check_constructor(**arg_value, **check_kwargs)\<close> raises
  \<^verbatim>\<open>TypeError\<close> when the dict repeats one of the option keywords.
\<close>

fun Field_loop :: "Field_args \<Rightarrow> (string \<times> string) list \<Rightarrow> check list \<Rightarrow> error + check list" where
  "Field_loop a [] checks = Inr checks"
| "Field_loop a ((arg_name, check_constructor) # rest) checks =
     (case args_lookup a arg_name of
        Plain ANone \<Rightarrow> Field_loop a rest checks
      | Plain arg_value \<Rightarrow>
          Field_loop a rest (checks @ [Check check_constructor [arg_value] (check_kwargs a)])
      | DictArg None \<Rightarrow> Field_loop a rest checks
      | DictArg (Some arg_value) \<Rightarrow>
          (if \<exists>k \<in> set (map fst arg_value). k \<in> set (map fst (check_kwargs a))
           then Inl TypeError
           else Field_loop a rest
                  (checks @ [Check check_constructor [] (arg_value @ check_kwargs a)])))"

text \<open>
  \<^verbatim>\<open>Field\<close> (named \<open>Field_fun\<close>: HOL has a constant \<open>Field\<close> of its own);
  \<^verbatim>\<open>checks or None\<close> hands an empty list over as \<^verbatim>\<open>None\<close>.
\<close>

definition Field_fun :: "Field_args \<Rightarrow> error + FieldInfo" where
  "Field_fun a =
     (case Field_loop a check_dispatch [] of
        Inl e \<Rightarrow> Inl e
      | Inr checks \<Rightarrow>
          Inr (FieldInfo_init (if checks = [] then CLNone else CLList checks)
                 (arg_nullable a) (arg_allow_duplicates a) (arg_coerce a) (arg_regex a)))"

subsection \<open>Annotations and the typing_inspect helpers\<close>

text \<open>
  A declared type expression, as \<^verbatim>\<open>cls.__annotations__\<close> holds it:
  a plain class (\<^verbatim>\<open>int\<close>, or \<^verbatim>\<open>Series\<close> without a parameter), \<^verbatim>\<open>type(None)\<close>,
  a string, a forward reference, \<^verbatim>\<open>Series[T]\<close>, \<^verbatim>\<open>Index[T]\<close>, a
  \<^verbatim>\<open>Union\<close> (\<^verbatim>\<open>Optional[T]\<close> is \<^verbatim>\<open>Union[T, None]\<close>), or any other
  subscripted generic such as \<^verbatim>\<open>List[int]\<close>.
\<close>

datatype annotation =
    TClass string
  | TNoneType
  | TStr string
  | TForwardRef string
  | TSeries annotation
  | TIndex annotation
  | TUnion "annotation list"
  | TAlias string "annotation list"

definition Optional :: "annotation \<Rightarrow> annotation" where
  "Optional t = TUnion [t, TNoneType]"

text \<open>
  The functions of the library \<^verbatim>\<open>typing_inspect\<close>, by their documented
  behaviour: \<^verbatim>\<open>get_args\<close> gives the type arguments (none for an unsubscripted
  type), \<^verbatim>\<open>get_origin\<close> the subscripted class, \<^verbatim>\<open>is_optional_type\<close> holds
  of \<^verbatim>\<open>type(None)\<close> and of a union with an optional member,
  \<^verbatim>\<open>get_forward_arg\<close> gives the string of a forward reference.
\<close>

fun get_args :: "annotation \<Rightarrow> annotation list" where
  "get_args (TSeries t) = [t]"
| "get_args (TIndex t) = [t]"
| "get_args (TUnion ts) = ts"
| "get_args (TAlias n ts) = ts"
| "get_args _ = []"

datatype origin = OSeries | OIndex | OUnion | OAlias string

fun get_origin :: "annotation \<Rightarrow> origin option" where
  "get_origin (TSeries t) = Some OSeries"
| "get_origin (TIndex t) = Some OIndex"
| "get_origin (TUnion ts) = Some OUnion"
| "get_origin (TAlias n ts) = Some (OAlias n)"
| "get_origin _ = None"

fun is_optional_type :: "annotation \<Rightarrow> bool" where
  "is_optional_type TNoneType = True"
| "is_optional_type (TUnion ts) = (\<exists>t \<in> set ts. is_optional_type t)"
| "is_optional_type _ = False"

fun get_forward_arg :: "annotation \<Rightarrow> string option" where
  "get_forward_arg (TForwardRef s) = Some s"
| "get_forward_arg _ = None"

text \<open>
  \<^verbatim>\<open>get_first_arg\<close>: \<^verbatim>\<open>get_args(annotation)[0]\<close> raises \<^verbatim>\<open>IndexError\<close> on
  an empty tuple; a forward reference is returned as its string.
\<close>

definition get_first_arg :: "annotation \<Rightarrow> error + annotation" where
  "get_first_arg annotation =
     (case get_args annotation of
        [] \<Rightarrow> Inl IndexError
      | arg # _ \<Rightarrow>
          Inr (case get_forward_arg arg of Some fwd \<Rightarrow> TStr fwd | None \<Rightarrow> arg))"

subsection \<open>Schema components\<close>

text \<open>
  Modelled from the spec: \<^verbatim>\<open>schema_components.Column\<close>, \<^verbatim>\<open>Index\<close>,
  \<^verbatim>\<open>MultiIndex\<close> and \<^verbatim>\<open>schemas.DataFrameSchema\<close> are not under src/. A
  column specification holds (dtype, checks, nullable, allow-duplicates, coerce,
  regex-name-match, required, name), an index specification the same minus
  required, a composite index an ordered list of index specifications and the
  schema a column map with an optional index. A flag the caller does not pass
  is \<open>None\<close> (the constructor's own default, which src/ does not show).
\<close>

record Column =
  col_dtype :: annotation
  col_checks :: "check list"
  col_nullable :: "bool option"
  col_allow_duplicates :: "bool option"
  col_coerce :: "bool option"
  col_regex :: "bool option"
  col_required :: bool
  col_name :: "string option"

record Index =
  idx_dtype :: annotation
  idx_checks :: "check list"
  idx_nullable :: "bool option"
  idx_allow_duplicates :: "bool option"
  idx_coerce :: "bool option"
  idx_name :: "string option"

datatype SchemaIndex = SingleIndex Index | MultiIndex "Index list"

record DataFrameSchema =
  schema_columns :: "(string \<times> Column) list"
  schema_index :: "SchemaIndex option"

text \<open>
  The two bare constructor calls of \<^verbatim>\<open>_build_columns_index\<close>:
  \<^verbatim>\<open>Column(dtype, required=..., checks=..., name=...)\<close> and
  \<^verbatim>\<open>Index(dtype, checks=..., name=...)\<close>.
\<close>

definition Column_init :: "annotation \<Rightarrow> bool \<Rightarrow> check list \<Rightarrow> string \<Rightarrow> Column" where
  "Column_init dtype required checks name =
     \<lparr>col_dtype = dtype, col_checks = checks, col_nullable = None,
      col_allow_duplicates = None, col_coerce = None, col_regex = None,
      col_required = required, col_name = Some name\<rparr>"

definition Index_init :: "annotation \<Rightarrow> check list \<Rightarrow> string \<Rightarrow> Index" where
  "Index_init dtype checks name =
     \<lparr>idx_dtype = dtype, idx_checks = checks, idx_nullable = None,
      idx_allow_duplicates = None, idx_coerce = None, idx_name = Some name\<rparr>"

text \<open>
  \<^verbatim>\<open>FieldInfo._to_schema_component\<close>: \<open>component\<close> is the constructor with
  the keyword arguments of the caller already bound; it receives the dtype and
  \<^verbatim>\<open>self.checks + checks\<close>.
\<close>

definition to_schema_component ::
  "FieldInfo \<Rightarrow> annotation \<Rightarrow> (annotation \<Rightarrow> check list \<Rightarrow> 'c) \<Rightarrow> checklist \<Rightarrow> 'c" where
  "to_schema_component self pandas_dtype component checks =
     component pandas_dtype (fi_checks self @ to_checklist checks)"

definition to_column :: "FieldInfo \<Rightarrow> annotation \<Rightarrow> bool \<Rightarrow> checklist \<Rightarrow> string \<Rightarrow> Column" where
  "to_column self pandas_dtype required checks name =
     to_schema_component self pandas_dtype
       (\<lambda>dtype cs. \<lparr>col_dtype = dtype, col_checks = cs,
           col_nullable = Some (fi_nullable self),
           col_allow_duplicates = Some (fi_allow_duplicates self),
           col_coerce = Some (fi_coerce self), col_regex = Some (fi_regex self),
           col_required = required, col_name = Some name\<rparr>)
       checks"

definition to_index :: "FieldInfo \<Rightarrow> annotation \<Rightarrow> checklist \<Rightarrow> string \<Rightarrow> Index" where
  "to_index self pandas_dtype checks name =
     to_schema_component self pandas_dtype
       (\<lambda>dtype cs. \<lparr>idx_dtype = dtype, idx_checks = cs,
           idx_nullable = Some (fi_nullable self),
           idx_allow_duplicates = Some (fi_allow_duplicates self),
           idx_coerce = Some (fi_coerce self), idx_name = Some name\<rparr>)
       checks"

text \<open>
  \<^verbatim>\<open>_build_schema_index\<close>. \<^verbatim>\<open>index._name = None\<close> clears the name of the
  only index; the members of a \<^verbatim>\<open>MultiIndex\<close> are passed as they are.
\<close>

definition build_schema_index :: "Index list \<Rightarrow> SchemaIndex option" where
  "build_schema_index indexes =
     (if indexes \<noteq> [] then
        (if length indexes = 1 then Some (SingleIndex ((hd indexes)\<lparr>idx_name := None\<rparr>))
         else Some (MultiIndex indexes))
      else None)"

subsection \<open>Class objects and the interpreter state\<close>

text \<open>
  \<^verbatim>\<open>_ValidatorConfig\<close>. \<open>vc_fields\<close> is the Python set of the binding in the
  order its iteration yields the elements.
\<close>

record ValidatorConfig =
  vc_fields :: "string list"
  vc_regex :: bool
  vc_check :: check

text \<open>
  The values a class attribute can have, as far as the module tells them apart:
  \<^verbatim>\<open>None\<close>, an int, a string, a \<^verbatim>\<open>FieldInfo\<close>, a plain function (with the
  \<^verbatim>\<open>__validator_config__\<close> attribute the decorator may have attached), another
  routine (bound method, builtin), a reference to a compiled schema on the heap,
  or some other object, of which only the class name and the truth value matter.
\<close>

datatype pyval =
    VNone
  | VInt int
  | VStr string
  | VField FieldInfo
  | VFunction string "ValidatorConfig option"
  | VRoutine string
  | VRef nat
  | VObject string bool

text \<open>
  Python's truth value. Modelled from the spec for the schema reference:
  \<^verbatim>\<open>DataFrameSchema\<close> is not under src/, and \<^verbatim>\<open>to_schema\<close> "returns the
  class's cached schema if present", so a schema object is true.
\<close>

fun truthy :: "pyval \<Rightarrow> bool" where
  "truthy VNone = False"
| "truthy (VInt i) = (i \<noteq> 0)"
| "truthy (VStr s) = (s \<noteq> [])"
| "truthy (VField f) = True"
| "truthy (VFunction n c) = True"
| "truthy (VRoutine n) = True"
| "truthy (VRef r) = True"
| "truthy (VObject n b) = b"

fun isroutine :: "pyval \<Rightarrow> bool" where
  "isroutine (VFunction n c) = True"
| "isroutine (VRoutine n) = True"
| "isroutine _ = False"

fun isfunction :: "pyval \<Rightarrow> bool" where
  "isfunction (VFunction n c) = True"
| "isfunction _ = False"

fun class_of :: "pyval \<Rightarrow> string" where
  "class_of VNone = ''NoneType''"
| "class_of (VInt i) = ''int''"
| "class_of (VStr s) = ''str''"
| "class_of (VField f) = ''FieldInfo''"
| "class_of (VFunction n c) = ''function''"
| "class_of (VRoutine n) = ''method''"
| "class_of (VRef r) = ''DataFrameSchema''"
| "class_of (VObject n b) = n"

text \<open>
  A class: the tail of its method resolution order (\<^verbatim>\<open>inspect.getmro(cls)\<close> is
  the class itself followed by \<open>cls_ancestors\<close>, ending in \<^verbatim>\<open>SchemaModel\<close> and
  \<^verbatim>\<open>object\<close> for a model class), its own \<^verbatim>\<open>__annotations__\<close> and the other
  entries of its own namespace, among them \<^verbatim>\<open>__schema__\<close> once it is set.
  \<^verbatim>\<open>cls.__annotations__\<close> is read as the annotations the class itself declares
  (what Python 3.10 and later return); ordinary attributes are looked up along
  the method resolution order.
\<close>

record pyclass =
  cls_ancestors :: "string list"
  cls_annotations :: "(string \<times> annotation) list"
  cls_dict :: "(string \<times> pyval) list"

text \<open>
  The state: the classes by name, the compiled schemas allocated so far (a
  reference \<open>VRef r\<close> is the position \<open>r\<close> in the heap) and the warnings
  emitted, each with the list of attribute names it reports.
\<close>

record state =
  st_classes :: "(string \<times> pyclass) list"
  st_heap :: "DataFrameSchema list"
  st_warnings :: "string list list"

definition get_class :: "state \<Rightarrow> string \<Rightarrow> pyclass" where
  "get_class st c =
     (case map_of (st_classes st) c of
        Some k \<Rightarrow> k
      | None \<Rightarrow> \<lparr>cls_ancestors = [], cls_annotations = [], cls_dict = []\<rparr>)"

definition update_class :: "string \<Rightarrow> (pyclass \<Rightarrow> pyclass) \<Rightarrow> state \<Rightarrow> state" where
  "update_class c f st =
     st\<lparr>st_classes := map (\<lambda>(n, k). if n = c then (n, f k) else (n, k)) (st_classes st)\<rparr>"

definition getmro :: "state \<Rightarrow> string \<Rightarrow> string list" where
  "getmro st cls = cls # cls_ancestors (get_class st cls)"

fun lookup_mro :: "state \<Rightarrow> string list \<Rightarrow> string \<Rightarrow> pyval option" where
  "lookup_mro st [] n = None"
| "lookup_mro st (c # cs) n =
     (case map_of (cls_dict (get_class st c)) n of
        Some v \<Rightarrow> Some v
      | None \<Rightarrow> lookup_mro st cs n)"

text \<open>\<^verbatim>\<open>getattr(cls, name)\<close>; \<open>None\<close> where Python raises \<^verbatim>\<open>AttributeError\<close>.\<close>

definition getattr :: "state \<Rightarrow> string \<Rightarrow> string \<Rightarrow> pyval option" where
  "getattr st cls n = lookup_mro st (getmro st cls) n"

text \<open>\<^verbatim>\<open>dir(cls)\<close>: the names of the namespaces along the resolution order, sorted.\<close>

definition dir_cls :: "state \<Rightarrow> string \<Rightarrow> string list" where
  "dir_cls st cls =
     sort (remdups (concat (map (\<lambda>c. map fst (cls_dict (get_class st c))) (getmro st cls))))"

text \<open>
  \<^verbatim>\<open>inspect.getmembers(cls, predicate)\<close>: the pairs of a name of \<^verbatim>\<open>dir(cls)\<close>
  and its \<^verbatim>\<open>getattr\<close> value that satisfy the predicate, sorted by name.
\<close>

definition getmembers :: "state \<Rightarrow> string \<Rightarrow> (pyval \<Rightarrow> bool) \<Rightarrow> (string \<times> pyval) list" where
  "getmembers st cls predicate =
     concat (map (\<lambda>key. case getattr st cls key of
                          Some v \<Rightarrow> (if predicate v then [(key, v)] else [])
                        | None \<Rightarrow> [])
                 (dir_cls st cls))"

section \<open>The compiler\<close>

subsection \<open>Validator bindings\<close>

text \<open>
  The regular expression library \<^verbatim>\<open>re\<close> is a parameter of the model:
  \<open>re_compile regex\<close> is \<open>None\<close> where \<^verbatim>\<open>re.compile(regex)\<close> raises
  \<^verbatim>\<open>re.error\<close>, and otherwise the predicate "\<^verbatim>\<open>pattern.match(s)\<close> is not
  \<^verbatim>\<open>None\<close>", which anchors the match at the start of \<open>s\<close>.
\<close>

type_synonym regex_engine = "string \<Rightarrow> (string \<Rightarrow> bool) option"

text \<open>
  \<^verbatim>\<open>matched.update(items)\<close> on a set kept as a duplicate-free list, new
  elements in the order they arrive.
\<close>

definition set_update :: "'a list \<Rightarrow> 'a list \<Rightarrow> 'a list" where
  "set_update matched items =
     fold (\<lambda>x acc. if x \<in> set acc then acc else acc @ [x]) items matched"

fun regex_filter_loop ::
  "regex_engine \<Rightarrow> string list \<Rightarrow> string list \<Rightarrow> string list \<Rightarrow> error + string list" where
  "regex_filter_loop re_compile seq [] matched = Inr matched"
| "regex_filter_loop re_compile seq (regex # regexps) matched =
     (case re_compile regex of
        None \<Rightarrow> Inl ReError
      | Some pattern_match \<Rightarrow>
          regex_filter_loop re_compile seq regexps
            (set_update matched (filter pattern_match seq)))"

text \<open>\<^verbatim>\<open>_regex_filter\<close>.\<close>

definition regex_filter :: "regex_engine \<Rightarrow> string list \<Rightarrow> string list \<Rightarrow> error + string list" where
  "regex_filter re_compile seq regexps = regex_filter_loop re_compile seq regexps []"

text \<open>
  The loop \<^verbatim>\<open>for field in matched\<close> of \<^verbatim>\<open>_update_checks\<close>: an unknown field
  raises, a known one gets the check appended to its list.
\<close>

fun bind_fields ::
  "string \<Rightarrow> check \<Rightarrow> string list \<Rightarrow> string list \<Rightarrow> (string \<times> check list) list
     \<Rightarrow> error + (string \<times> check list) list" where
  "bind_fields fn_name chk field_names [] checks = Inr checks"
| "bind_fields fn_name chk field_names (field # matched) checks =
     (if field \<notin> set field_names then Inl (SchemaInitError (NonExistingField fn_name field))
      else bind_fields fn_name chk field_names matched
             (AList.update field
                ((case map_of checks field of None \<Rightarrow> [] | Some cs \<Rightarrow> cs) @ [chk]) checks))"

text \<open>
  \<^verbatim>\<open>_update_checks\<close>. Only a function that carries a \<^verbatim>\<open>_ValidatorConfig\<close>
  contributes.
\<close>

fun update_checks ::
  "regex_engine \<Rightarrow> (string \<times> check list) list \<Rightarrow> pyval \<Rightarrow> string list
     \<Rightarrow> error + (string \<times> check list) list" where
  "update_checks re_compile checks (VFunction fn_name (Some field_validator)) field_names =
     (case (if vc_regex field_validator
            then regex_filter re_compile field_names (vc_fields field_validator)
            else Inr (vc_fields field_validator)) of
        Inl e \<Rightarrow> Inl e
      | Inr matched \<Rightarrow> bind_fields fn_name (vc_check field_validator) field_names matched checks)"
| "update_checks re_compile checks fn field_names = Inr checks"

text \<open>The loop of \<^verbatim>\<open>to_schema\<close> over the function members of the class.\<close>

fun validators_loop ::
  "regex_engine \<Rightarrow> pyval list \<Rightarrow> string list \<Rightarrow> (string \<times> check list) list
     \<Rightarrow> error + (string \<times> check list) list" where
  "validators_loop re_compile [] field_names checks = Inr checks"
| "validators_loop re_compile (fn # fns) field_names checks =
     (case update_checks re_compile checks fn field_names of
        Inl e \<Rightarrow> Inl e
      | Inr checks' \<Rightarrow> validators_loop re_compile fns field_names checks')"

subsection \<open>The annotation collector\<close>

definition startswith :: "string \<Rightarrow> string \<Rightarrow> bool" where
  "startswith s p = (take (length p) s = p)"

text \<open>
  The loop of \<^verbatim>\<open>_get_field_annotations\<close> over the names of the non-routine
  members: a name with a leading underscore is popped from the annotations, any
  other name without an annotation is reported as missing.
\<close>

fun scan_members ::
  "string list \<Rightarrow> (string \<times> annotation) list \<Rightarrow> string list
     \<Rightarrow> (string \<times> annotation) list \<times> string list" where
  "scan_members [] annotations missing = (annotations, missing)"
| "scan_members (attr_name # rest) annotations missing =
     (if startswith attr_name ''_''
      then scan_members rest (AList.delete attr_name annotations) missing
      else if attr_name \<notin> set (map fst annotations)
      then scan_members rest annotations (missing @ [attr_name])
      else scan_members rest annotations missing)"

text \<open>
  \<^verbatim>\<open>_get_field_annotations\<close>. \<^verbatim>\<open>annotations\<close> is the class's own dict, so
  the pops change the class; a non-empty \<^verbatim>\<open>missing\<close> list is warned about.
\<close>

definition get_field_annotations ::
  "string \<Rightarrow> state \<Rightarrow> (error + (string \<times> annotation) list) \<times> state" where
  "get_field_annotations cls st =
     (let annotations = cls_annotations (get_class st cls) in
      if annotations = [] then (Inl (SchemaInitError (NotAnnotated cls)), st)
      else
        let (annotations', missing) =
              scan_members (map fst (getmembers st cls (\<lambda>x. \<not> isroutine x))) annotations [];
            st1 = update_class cls (\<lambda>k. k\<lparr>cls_annotations := annotations'\<rparr>) st;
            st2 = (if missing \<noteq> [] then st1\<lparr>st_warnings := st_warnings st1 @ [missing]\<rparr>
                   else st1)
        in (Inr annotations', st2))"

text \<open>\<^verbatim>\<open>annotations.update(base_annotations)\<close>.\<close>

definition dict_update :: "('k \<times> 'v) list \<Rightarrow> ('k \<times> 'v) list \<Rightarrow> ('k \<times> 'v) list" where
  "dict_update d other = fold (\<lambda>(k, v). AList.update k v) other d"

fun inherit_loop ::
  "string list \<Rightarrow> (string \<times> annotation) list \<Rightarrow> state
     \<Rightarrow> (error + (string \<times> annotation) list) \<times> state" where
  "inherit_loop [] annotations st = (Inr annotations, st)"
| "inherit_loop (base # bases) annotations st =
     (case get_field_annotations base st of
        (Inl e, st') \<Rightarrow> (Inl e, st')
      | (Inr base_annotations, st') \<Rightarrow>
          inherit_loop bases (dict_update annotations base_annotations) st')"

text \<open>\<^verbatim>\<open>inspect.getmro(cls)[:-2]\<close>: all but the last two classes.\<close>

definition model_bases :: "state \<Rightarrow> string \<Rightarrow> string list" where
  "model_bases st cls = take (length (getmro st cls) - 2) (getmro st cls)"

text \<open>\<^verbatim>\<open>SchemaModel._inherit_field_annotations\<close>.\<close>

definition inherit_field_annotations ::
  "string \<Rightarrow> state \<Rightarrow> (error + (string \<times> annotation) list) \<times> state" where
  "inherit_field_annotations cls st = inherit_loop (rev (model_bases st cls)) [] st"

subsection \<open>Columns and indexes\<close>

text \<open>
  The body of the loop of \<^verbatim>\<open>_build_columns_index\<close> for one annotation entry.
  \<^verbatim>\<open>getattr(cls, field_name, None)\<close> gives \<^verbatim>\<open>None\<close> for a missing attribute.
\<close>

definition build_entry ::
  "state \<Rightarrow> string \<Rightarrow> (string \<times> check list) list
     \<Rightarrow> (string \<times> Column) list \<times> Index list \<Rightarrow> string \<times> annotation
     \<Rightarrow> error + (string \<times> Column) list \<times> Index list" where
  "build_entry st cls checks acc entry =
     (let (columns, indexes) = acc;
          (field_name, annotation0) = entry;
          optional = is_optional_type annotation0
      in case (if optional then get_first_arg annotation0 else Inr annotation0) of
           Inl e \<Rightarrow> Inl e
         | Inr annotation \<Rightarrow>
            (let schema_component = get_origin annotation
             in case get_first_arg annotation of
                  Inl e \<Rightarrow> Inl e
                | Inr dtype \<Rightarrow>
                   (let field = (case getattr st cls field_name of None \<Rightarrow> VNone | Some v \<Rightarrow> v)
                    in if truthy field \<and> (case field of VField fi \<Rightarrow> False | _ \<Rightarrow> True)
                       then Inl (SchemaInitError (NotAField field_name (class_of field)))
                       else
                         let field_checks =
                               (case map_of checks field_name of None \<Rightarrow> [] | Some cs \<Rightarrow> cs)
                         in if schema_component = Some OSeries then
                              Inr (AList.update field_name
                                     (case field of
                                        VField fi \<Rightarrow>
                                          to_column fi dtype (\<not> optional) (CLList field_checks)
                                            field_name
                                      | _ \<Rightarrow>
                                          Column_init dtype (\<not> optional) field_checks field_name)
                                     columns,
                                   indexes)
                            else if schema_component = Some OIndex then
                              (if optional
                               then Inl (SchemaInitError (IndexOptional field_name))
                               else
                                 Inr (columns,
                                      indexes @
                                      [case field of
                                         VField fi \<Rightarrow>
                                           to_index fi dtype (CLList field_checks) field_name
                                       | _ \<Rightarrow> Index_init dtype field_checks field_name]))
                            else Inl (SchemaInitError (InvalidAnnotation field_name)))))"

fun build_loop ::
  "state \<Rightarrow> string \<Rightarrow> (string \<times> check list) list \<Rightarrow> (string \<times> annotation) list
     \<Rightarrow> (string \<times> Column) list \<times> Index list
     \<Rightarrow> error + (string \<times> Column) list \<times> Index list" where
  "build_loop st cls checks [] acc = Inr acc"
| "build_loop st cls checks (entry # entries) acc =
     (case build_entry st cls checks acc entry of
        Inl e \<Rightarrow> Inl e
      | Inr acc' \<Rightarrow> build_loop st cls checks entries acc')"

text \<open>\<^verbatim>\<open>SchemaModel._build_columns_index\<close>.\<close>

definition build_columns_index ::
  "state \<Rightarrow> string \<Rightarrow> (string \<times> check list) list \<Rightarrow> (string \<times> annotation) list
     \<Rightarrow> error + (string \<times> Column) list \<times> SchemaIndex option" where
  "build_columns_index st cls checks annotations =
     (case build_loop st cls checks annotations ([], []) of
        Inl e \<Rightarrow> Inl e
      | Inr (columns, indexes) \<Rightarrow> Inr (columns, build_schema_index indexes))"

subsection \<open>to_schema\<close>

text \<open>
  \<^verbatim>\<open>cls.__schema__ = DataFrameSchema(columns, index=index)\<close>: the new schema
  object goes to the end of the heap and the class's own namespace receives the
  reference to it.
\<close>

definition store_schema :: "string \<Rightarrow> DataFrameSchema \<Rightarrow> state \<Rightarrow> pyval \<times> state" where
  "store_schema cls schema st =
     (let r = VRef (length (st_heap st));
          st1 = st\<lparr>st_heap := st_heap st @ [schema]\<rparr>
      in (r, update_class cls
                (\<lambda>k. k\<lparr>cls_dict := AList.update ''__schema__'' r (cls_dict k)\<rparr>) st1))"

text \<open>
  \<^verbatim>\<open>SchemaModel.to_schema\<close>. The result is the value of \<^verbatim>\<open>cls.__schema__\<close>:
  the cached one when it is true, the reference just stored otherwise.
\<close>

definition to_schema :: "regex_engine \<Rightarrow> string \<Rightarrow> state \<Rightarrow> (error + pyval) \<times> state" where
  "to_schema re_compile cls st =
     (case getattr st cls ''__schema__'' of
        None \<Rightarrow> (Inl AttributeError, st)
      | Some cached \<Rightarrow>
          if truthy cached then (Inr cached, st)
          else
            (case inherit_field_annotations cls st of
               (Inl e, st1) \<Rightarrow> (Inl e, st1)
             | (Inr annotations, st1) \<Rightarrow>
                 (case validators_loop re_compile (map snd (getmembers st1 cls isfunction))
                         (map fst annotations) [] of
                    Inl e \<Rightarrow> (Inl e, st1)
                  | Inr checks \<Rightarrow>
                      (case build_columns_index st1 cls checks annotations of
                         Inl e \<Rightarrow> (Inl e, st1)
                       | Inr (columns, index) \<Rightarrow>
                           (case store_schema cls
                                   \<lparr>schema_columns = columns, schema_index = index\<rparr> st1 of
                              (r, st2) \<Rightarrow> (Inr r, st2))))))"

subsection \<open>A regular expression engine for examples\<close>

text \<open>
  An instance of the \<^verbatim>\<open>re\<close> parameter for the patterns built from literal
  characters, \<^verbatim>\<open>.\<close> (any character but a newline) and a postfix \<^verbatim>\<open>*\<close>. A
  pattern with any other metacharacter is outside this fragment and is not
  compiled (\<open>None\<close>).
\<close>

datatype atom = AChar char | ADot

definition metachars :: "char list" where
  "metachars =
     [CHR 0x5C, CHR ''^'', CHR ''$'', CHR ''*'', CHR ''+'', CHR ''?'', CHR ''{'', CHR ''}'',
      CHR ''['', CHR '']'', CHR ''('', CHR '')'', CHR ''|'']"

fun simple_parse :: "string \<Rightarrow> (atom \<times> bool) list option" where
  "simple_parse [] = Some []"
| "simple_parse (c # cs) =
     (if c \<in> set metachars then None
      else
        let a = (if c = CHR ''.'' then ADot else AChar c) in
        (case cs of
           [] \<Rightarrow> Some [(a, False)]
         | d # ds \<Rightarrow>
             if d = CHR ''*'' then map_option (\<lambda>r. (a, True) # r) (simple_parse ds)
             else map_option (\<lambda>r. (a, False) # r) (simple_parse cs)))"

fun match_atom :: "atom \<Rightarrow> char \<Rightarrow> bool" where
  "match_atom (AChar d) c = (c = d)"
| "match_atom ADot c = (c \<noteq> CHR 0x0A)"

fun match_here :: "(atom \<times> bool) list \<Rightarrow> string \<Rightarrow> bool" where
  "match_here [] s = True"
| "match_here ((a, False) # ps) [] = False"
| "match_here ((a, False) # ps) (c # cs) = (match_atom a c \<and> match_here ps cs)"
| "match_here ((a, True) # ps) [] = match_here ps []"
| "match_here ((a, True) # ps) (c # cs) =
     (match_here ps (c # cs) \<or> (match_atom a c \<and> match_here ((a, True) # ps) cs))"

definition simple_re :: regex_engine where
  "simple_re regex = map_option match_here (simple_parse regex)"

section \<open>Notions used in the statements\<close>

text \<open>A class is in the table of the state.\<close>

definition in_table :: "state \<Rightarrow> string \<Rightarrow> bool" where
  "in_table st c = (map_of (st_classes st) c \<noteq> None)"

text \<open>
  Two states agree on the resolution order and on the namespace of every class:
  attribute lookup and \<^verbatim>\<open>getmembers\<close> give the same in both.
\<close>

definition same_namespaces :: "state \<Rightarrow> state \<Rightarrow> bool" where
  "same_namespaces st st' =
     (\<forall>c. cls_ancestors (get_class st' c) = cls_ancestors (get_class st c)
        \<and> cls_dict (get_class st' c) = cls_dict (get_class st c))"

text \<open>
  The annotations of a class that \<^verbatim>\<open>_get_field_annotations\<close> keeps: its own
  annotations without those popped for a leading underscore.
\<close>

definition kept_annotations :: "state \<Rightarrow> string \<Rightarrow> (string \<times> annotation) list" where
  "kept_annotations st c =
     fst (scan_members (map fst (getmembers st c (\<lambda>x. \<not> isroutine x)))
            (cls_annotations (get_class st c)) [])"

text \<open>What the annotation collector may change between two states.\<close>

definition collector_step :: "state \<Rightarrow> state \<Rightarrow> bool" where
  "collector_step st st' =
     (same_namespaces st st' \<and> st_heap st' = st_heap st
      \<and> map fst (st_classes st') = map fst (st_classes st)
      \<and> (\<forall>c. in_table st' c = in_table st c)
      \<and> (\<forall>c. kept_annotations st' c = kept_annotations st c)
      \<and> (\<forall>c. cls_annotations (get_class st' c) = cls_annotations (get_class st c)
             \<or> cls_annotations (get_class st' c) = kept_annotations st c))"

text \<open>The known fields that some pattern of a binding matches.\<close>

definition regex_targets :: "regex_engine \<Rightarrow> string list \<Rightarrow> string list \<Rightarrow> string set" where
  "regex_targets re_compile field_names patterns =
     {f \<in> set field_names. \<exists>p \<in> set patterns. \<exists>m. re_compile p = Some m \<and> m f}"

section \<open>Example programs\<close>

text \<open>
  The two roots of every model class: \<^verbatim>\<open>object\<close>, and \<^verbatim>\<open>SchemaModel\<close> with
  its class attribute \<^verbatim>\<open>__schema__ = None\<close>, its \<^verbatim>\<open>__new__\<close> and its class
  methods.
\<close>

definition object_class :: pyclass where
  "object_class =
     \<lparr>cls_ancestors = [], cls_annotations = [],
      cls_dict = [(''__doc__'', VStr ''The base class''), (''__init__'', VRoutine ''__init__'')]\<rparr>"

definition SchemaModel_class :: pyclass where
  "SchemaModel_class =
     \<lparr>cls_ancestors = [''object''],
      cls_annotations = [(''__schema__'', Optional (TClass ''DataFrameSchema''))],
      cls_dict = [(''__schema__'', VNone), (''__new__'', VFunction ''__new__'' None),
                  (''to_schema'', VRoutine ''to_schema'')]\<rparr>"

text \<open>A class that derives from the given model classes, and a fresh program.\<close>

definition model_class ::
  "string list \<Rightarrow> (string \<times> annotation) list \<Rightarrow> (string \<times> pyval) list \<Rightarrow> pyclass" where
  "model_class parents annotations namespace =
     \<lparr>cls_ancestors = parents @ [''SchemaModel'', ''object''],
      cls_annotations = annotations, cls_dict = namespace\<rparr>"

definition program :: "(string \<times> pyclass) list \<Rightarrow> state" where
  "program classes =
     \<lparr>st_classes = [(''object'', object_class), (''SchemaModel'', SchemaModel_class)] @ classes,
      st_heap = [], st_warnings = []\<rparr>"

text \<open>
  \<^verbatim>\<open>class Schema(SchemaModel): a: Series[int]; b: Optional[Series[str]]\<close>
\<close>

definition ex_basic :: state where
  "ex_basic =
     program [(''Schema'', model_class []
        [(''a'', TSeries (TClass ''int'')), (''b'', Optional (TSeries (TClass ''str'')))] [])]"

text \<open>
  \<^verbatim>\<open>class Multi(SchemaModel): i1: Index[int]; i2: Index[str]; val: Series[float]\<close>
\<close>

definition ex_indexes_annotations :: "(string \<times> annotation) list" where
  "ex_indexes_annotations =
     [(''i1'', TIndex (TClass ''int'')), (''i2'', TIndex (TClass ''str'')),
      (''val'', TSeries (TClass ''float''))]"

definition ex_indexes :: state where
  "ex_indexes = program [(''Multi'', model_class [] ex_indexes_annotations [])]"

text \<open>
  A field with a descriptor and two validators, one bound by the pattern
  \<^verbatim>\<open>a.*\<close> and one bound to the name \<^verbatim>\<open>val\<close>, which no field has:
  \<^verbatim>\<open>abc: Series[int] = Field(gt=0)\<close>, \<^verbatim>\<open>xyz: Series[int]\<close>.
\<close>

definition ex_gt0 :: check where
  "ex_gt0 = Check ''greater_than'' [AInt 0]
              [(''ignore_na'', ABool True), (''raise_warning'', ABool False),
               (''n_failure_cases'', AInt 10)]"

definition ex_descriptor :: FieldInfo where
  "ex_descriptor = FieldInfo_init (CLList [ex_gt0]) False True False False"

definition ex_regex_binding :: ValidatorConfig where
  "ex_regex_binding =
     \<lparr>vc_fields = [''a.*''], vc_regex = True, vc_check = Check ''check_a'' [] []\<rparr>"

definition ex_literal_binding :: ValidatorConfig where
  "ex_literal_binding =
     \<lparr>vc_fields = [''val''], vc_regex = False, vc_check = Check ''check_val'' [] []\<rparr>"

definition ex_validated :: state where
  "ex_validated =
     program [(''Validated'', model_class []
        [(''abc'', TSeries (TClass ''int'')), (''xyz'', TSeries (TClass ''int''))]
        [(''abc'', VField ex_descriptor),
         (''check_a'', VFunction ''check_a'' (Some ex_regex_binding))])]"

text \<open>
  \<^verbatim>\<open>class Unbound(SchemaModel): abc: Series[int]\<close> with a validator bound to
  the name \<^verbatim>\<open>val\<close>.
\<close>

definition ex_unknown_field :: state where
  "ex_unknown_field =
     program [(''Unbound'', model_class []
        [(''abc'', TSeries (TClass ''int''))]
        [(''check_val'', VFunction ''check_val'' (Some ex_literal_binding))])]"


text \<open>\<^verbatim>\<open>class Zero(SchemaModel): a: Series[int] = 0\<close>\<close>

definition ex_zero :: state where
  "ex_zero =
     program [(''Zero'', model_class [] [(''a'', TSeries (TClass ''int''))] [(''a'', VInt 0)])]"

text \<open>
  \<^verbatim>\<open>class Parent(SchemaModel): _x: Series[int]; y: Series[int]\<close> and
  \<^verbatim>\<open>class Child(Parent): _x: Series[str] = Field(); y: Series[str]\<close>
\<close>

definition ex_inherit :: state where
  "ex_inherit =
     program
       [(''Parent'', model_class []
           [(''_x'', TSeries (TClass ''int'')), (''y'', TSeries (TClass ''int''))] []),
        (''Child'', model_class [''Parent'']
           [(''_x'', TSeries (TClass ''str'')), (''y'', TSeries (TClass ''str''))]
           [(''_x'', VField (FieldInfo_init CLNone False True False False))])]"

text \<open>
  \<^verbatim>\<open>class Parent(SchemaModel): a: Series[int]\<close> and
  \<^verbatim>\<open>class Child(Parent): a: Series[str]\<close>
\<close>

definition ex_override :: state where
  "ex_override =
     program
       [(''Parent'', model_class [] [(''a'', TSeries (TClass ''int''))] []),
        (''Child'', model_class [''Parent''] [(''a'', TSeries (TClass ''str''))] [])]"

text \<open>
  \<^verbatim>\<open>class Flaky(SchemaModel): _d: int = 0\<close> with a validator bound to the
  name \<^verbatim>\<open>val\<close>.
\<close>

definition ex_unrepeatable :: state where
  "ex_unrepeatable =
     program [(''Flaky'', model_class []
        [(''_d'', TClass ''int'')]
        [(''_d'', VInt 0),
         (''check_val'', VFunction ''check_val'' (Some ex_literal_binding))])]"

text \<open>
  \<^verbatim>\<open>class Base(SchemaModel): a: Series[int]\<close> and
  \<^verbatim>\<open>class Empty(Base): pass\<close>
\<close>

definition ex_empty :: state where
  "ex_empty =
     program
       [(''Base'', model_class [] [(''a'', TSeries (TClass ''int''))] []),
        (''Empty'', model_class [''Base''] [] [])]"

text \<open>\<^verbatim>\<open>class Protected(SchemaModel): a: Series[int]; _d: int = 0\<close>\<close>

definition ex_protected :: state where
  "ex_protected =
     program [(''Protected'', model_class []
        [(''a'', TSeries (TClass ''int'')), (''_d'', TClass ''int'')] [(''_d'', VInt 0)])]"

section \<open>Theorems\<close>

subsection \<open>The Field constructor\<close>

text \<open>
  C9. A call of \<^verbatim>\<open>Field\<close> with every constraint parameter absent and the four
  policy flags at their defaults raises nothing and yields a descriptor with an
  empty check list, nullable false, allow-duplicates true, coerce false and
  regex false, whatever the three check-evaluation options are.
\<close>

theorem Field_all_default:
  "Field_fun (Field_defaults\<lparr>arg_ignore_na := i, arg_raise_warning := w, arg_n_failure_cases := n\<rparr>)
     = Inr \<lparr>fi_checks = [], fi_nullable = False, fi_allow_duplicates = True,
            fi_coerce = False, fi_regex = False\<rparr>"
  by (simp add: Field_fun_def Field_defaults_def check_dispatch_def args_lookup_def
      FieldInfo_init_def)

theorem Field_all_default_witness:
  "Field_fun Field_defaults
     = Inr \<lparr>fi_checks = [], fi_nullable = False, fi_allow_duplicates = True,
            fi_coerce = False, fi_regex = False\<rparr>"
  using Field_all_default[where i=True and w=False and n=10]
  by (simp add: Field_defaults_def)

subsection \<open>One annotation entry\<close>

lemma get_first_arg_simps:
  "get_first_arg (TSeries d) = Inr (case get_forward_arg d of Some fwd \<Rightarrow> TStr fwd | None \<Rightarrow> d)"
  "get_first_arg (TIndex d) = Inr (case get_forward_arg d of Some fwd \<Rightarrow> TStr fwd | None \<Rightarrow> d)"
  "get_first_arg (Optional (TSeries d)) = Inr (TSeries d)"
  "get_first_arg (Optional (TIndex d)) = Inr (TIndex d)"
  by (simp_all add: get_first_arg_def Optional_def)

lemma is_optional_simps:
  "is_optional_type (Optional t)" "\<not> is_optional_type (TSeries d)" "\<not> is_optional_type (TIndex d)"
  by (simp_all add: Optional_def)

lemma optional_origin:
  "is_optional_type a \<Longrightarrow> get_origin a \<noteq> Some OIndex \<and> get_origin a \<noteq> Some OSeries"
  by (cases a) simp_all

lemma build_entry_field_series:
  assumes "getattr st cls n = Some (VField fi)" and "map_of checks n = Some vcs"
  shows "\<exists>dtype. build_entry st cls checks (columns, indexes) (n, TSeries d) =
           Inr (AList.update n (to_column fi dtype True (CLList vcs) n) columns, indexes)"
  using assms by (simp add: build_entry_def get_first_arg_simps) blast

lemma build_entry_field_opt_series:
  assumes "getattr st cls n = Some (VField fi)" and "map_of checks n = Some vcs"
  shows "\<exists>dtype. build_entry st cls checks (columns, indexes) (n, Optional (TSeries d)) =
           Inr (AList.update n (to_column fi dtype False (CLList vcs) n) columns, indexes)"
  using assms by (simp add: build_entry_def get_first_arg_simps is_optional_simps) blast

lemma build_entry_field_index:
  assumes "getattr st cls n = Some (VField fi)" and "map_of checks n = Some vcs"
  shows "\<exists>dtype. build_entry st cls checks (columns, indexes) (n, TIndex d) =
           Inr (columns, indexes @ [to_index fi dtype (CLList vcs) n])"
  using assms by (simp add: build_entry_def get_first_arg_simps) blast

lemma to_column_checks: "col_checks (to_column fi d r (CLList cs) n) = fi_checks fi @ cs"
  by (simp add: to_column_def to_schema_component_def)

lemma to_index_checks: "idx_checks (to_index fi d (CLList cs) n) = fi_checks fi @ cs"
  by (simp add: to_index_def to_schema_component_def)

text \<open>
  C10. When the field name is bound to a \<^verbatim>\<open>FieldInfo\<close> and the validators
  have contributed the checks \<open>vcs\<close> to it, the column built for a
  \<^verbatim>\<open>Series\<close> annotation (optional or not) and the index built for an
  \<^verbatim>\<open>Index\<close> annotation carry the descriptor's checks followed by \<open>vcs\<close>.
\<close>

theorem descriptor_checks_first:
  assumes "getattr st cls n = Some (VField fi)" and "map_of checks n = Some vcs"
  shows "(\<exists>col. build_entry st cls checks (columns, indexes) (n, TSeries d)
                 = Inr (AList.update n col columns, indexes)
               \<and> col_checks col = fi_checks fi @ vcs)
       \<and> (\<exists>col. build_entry st cls checks (columns, indexes) (n, Optional (TSeries d))
                 = Inr (AList.update n col columns, indexes)
               \<and> col_checks col = fi_checks fi @ vcs)
       \<and> (\<exists>idx. build_entry st cls checks (columns, indexes) (n, TIndex d)
                 = Inr (columns, indexes @ [idx])
               \<and> idx_checks idx = fi_checks fi @ vcs)"
proof (intro conjI)
  show "\<exists>col. build_entry st cls checks (columns, indexes) (n, TSeries d)
                 = Inr (AList.update n col columns, indexes)
               \<and> col_checks col = fi_checks fi @ vcs"
    using build_entry_field_series[OF assms] to_column_checks by metis
  show "\<exists>col. build_entry st cls checks (columns, indexes) (n, Optional (TSeries d))
                 = Inr (AList.update n col columns, indexes)
               \<and> col_checks col = fi_checks fi @ vcs"
    using build_entry_field_opt_series[OF assms] to_column_checks by metis
  show "\<exists>idx. build_entry st cls checks (columns, indexes) (n, TIndex d)
                 = Inr (columns, indexes @ [idx])
               \<and> idx_checks idx = fi_checks fi @ vcs"
    using build_entry_field_index[OF assms] to_index_checks by metis
qed

theorem descriptor_checks_first_witness:
  "getattr ex_validated ''Validated'' ''abc'' = Some (VField ex_descriptor)
 \<and> map_of [(''abc'', [Check ''check_a'' [] []])] ''abc'' = Some [Check ''check_a'' [] []]
 \<and> build_entry ex_validated ''Validated'' [(''abc'', [Check ''check_a'' [] []])]
       ([], []) (''abc'', TSeries (TClass ''int''))
     = Inr ([(''abc'', to_column ex_descriptor (TClass ''int'') True
                         (CLList [Check ''check_a'' [] []]) ''abc'')], [])
 \<and> col_checks (to_column ex_descriptor (TClass ''int'') True
                  (CLList [Check ''check_a'' [] []]) ''abc'')
     = [ex_gt0, Check ''check_a'' [] []]"
proof -
  have h1: "getattr ex_validated ''Validated'' ''abc'' = Some (VField ex_descriptor)"
    by code_simp
  have h2: "map_of [(''abc'', [Check ''check_a'' [] []])] ''abc'' = Some [Check ''check_a'' [] []]"
    by simp
  have fc: "fi_checks ex_descriptor = [ex_gt0]"
    by (simp add: ex_descriptor_def FieldInfo_init_def)
  have b: "build_entry ex_validated ''Validated'' [(''abc'', [Check ''check_a'' [] []])]
       ([], []) (''abc'', TSeries (TClass ''int''))
     = Inr ([(''abc'', to_column ex_descriptor (TClass ''int'') True
                         (CLList [Check ''check_a'' [] []]) ''abc'')], [])"
    by (simp add: build_entry_def h1 get_first_arg_simps)
  from descriptor_checks_first[OF h1 h2, of "[]" "[]" "TClass ''int''"] b
  have "col_checks (to_column ex_descriptor (TClass ''int'') True
                  (CLList [Check ''check_a'' [] []]) ''abc'')
     = fi_checks ex_descriptor @ [Check ''check_a'' [] []]"
    by auto
  with h1 h2 b fc show ?thesis by simp
qed

subsection \<open>Optional entries\<close>









text \<open>
  The test of line 171 on a true attribute: a value that is not a
  \<^verbatim>\<open>FieldInfo\<close> is rejected, for a row-kind as for an index-kind entry.
\<close>

lemma truthy_non_field_rejected:
  assumes "getattr st cls n = Some v" and "truthy v" and "\<forall>fi. v \<noteq> VField fi"
  shows "build_entry st cls checks acc (n, TSeries d)
           = Inl (SchemaInitError (NotAField n (class_of v)))"
    and "build_entry st cls checks acc (n, TIndex d)
           = Inl (SchemaInitError (NotAField n (class_of v)))"
    and "build_entry st cls checks acc (n, Optional (TSeries d))
           = Inl (SchemaInitError (NotAField n (class_of v)))"
  using assms
  by (cases acc; cases v;
      simp add: build_entry_def get_first_arg_simps is_optional_simps Let_def)+

text \<open>
  C7. The class \<^verbatim>\<open>Zero\<close> binds the field name \<^verbatim>\<open>a\<close> to the integer 0, which
  is not a \<^verbatim>\<open>FieldInfo\<close>; the test \<^verbatim>\<open>if field and not isinstance(...)\<close>
  takes the false value for a missing attribute, and compilation succeeds with
  a bare column.
\<close>

theorem falsy_attribute_accepted:
  "getattr ex_zero ''Zero'' ''a'' = Some (VInt 0)
 \<and> fst (to_schema simple_re ''Zero'' ex_zero) = Inr (VRef 0)
 \<and> st_heap (snd (to_schema simple_re ''Zero'' ex_zero))
     = [\<lparr>schema_columns = [(''a'', Column_init (TClass ''int'') True [] ''a'')],
         schema_index = None\<rparr>]"
  by code_simp

subsection \<open>The index of the schema\<close>

lemma build_entry_indexes:
  assumes "build_entry st cls checks (columns, indexes) (n, a) = Inr (columns', indexes')"
  shows "map idx_name indexes' =
           map idx_name indexes @ (if get_origin a = Some OIndex then [Some n] else [])"
  using assms optional_origin[of a]
  by (auto simp: build_entry_def Let_def to_index_def to_schema_component_def Index_init_def
      get_first_arg_def Optional_def
      split: sum.splits if_splits pyval.splits option.splits list.splits annotation.splits)

lemma build_loop_indexes:
  "build_loop st cls checks annotations (columns, indexes) = Inr (columns', indexes') \<Longrightarrow>
   map idx_name indexes' =
     map idx_name indexes @
     map (\<lambda>e. Some (fst e)) (filter (\<lambda>e. get_origin (snd e) = Some OIndex) annotations)"
proof (induction annotations arbitrary: columns indexes)
  case Nil
  then show ?case by simp
next
  case (Cons e es)
  obtain n a where e: "e = (n, a)" by (cases e)
  from Cons.prems obtain c1 i1 where
    step: "build_entry st cls checks (columns, indexes) (n, a) = Inr (c1, i1)" and
    rest: "build_loop st cls checks es (c1, i1) = Inr (columns', indexes')"
    by (auto simp: e split: sum.splits)
  from build_entry_indexes[OF step] Cons.IH[OF rest] show ?case
    by (simp add: e)
qed

lemma build_schema_index_cases:
  "build_schema_index [] = None"
  "build_schema_index [i] = Some (SingleIndex (i\<lparr>idx_name := None\<rparr>))"
  "2 \<le> length indexes \<Longrightarrow> build_schema_index indexes = Some (MultiIndex indexes)"
  by (auto simp: build_schema_index_def)

text \<open>
  C4. When the loop over the annotations succeeds with the index entries
  \<open>indexes\<close>, \<^verbatim>\<open>_build_columns_index\<close> returns the columns with
  \<^verbatim>\<open>_build_schema_index(indexes)\<close>. The entries stand in declaration order and
  each carries its field name: their names are the names of the index-kind
  annotations, in the order of the annotation map. No entry gives no index, one
  entry gives that index with its name cleared, and two or more give a
  \<^verbatim>\<open>MultiIndex\<close> of the entries as they are.
\<close>

theorem index_composition:
  assumes "build_loop st cls checks annotations ([], []) = Inr (columns, indexes)"
  shows "build_columns_index st cls checks annotations = Inr (columns, build_schema_index indexes)
       \<and> map idx_name indexes =
           map (\<lambda>e. Some (fst e)) (filter (\<lambda>e. get_origin (snd e) = Some OIndex) annotations)
       \<and> (indexes = [] \<longrightarrow> build_schema_index indexes = None)
       \<and> (\<forall>i. indexes = [i] \<longrightarrow>
             build_schema_index indexes = Some (SingleIndex (i\<lparr>idx_name := None\<rparr>)))
       \<and> (2 \<le> length indexes \<longrightarrow> build_schema_index indexes = Some (MultiIndex indexes))"
  using assms build_loop_indexes[OF assms]
  by (simp add: build_columns_index_def build_schema_index_cases)

theorem index_composition_witness:
  "build_loop ex_indexes ''Multi'' [] ex_indexes_annotations ([], [])
     = Inr ([(''val'', Column_init (TClass ''float'') True [] ''val'')],
            [Index_init (TClass ''int'') [] ''i1'', Index_init (TClass ''str'') [] ''i2''])
 \<and> build_columns_index ex_indexes ''Multi'' [] ex_indexes_annotations
     = Inr ([(''val'', Column_init (TClass ''float'') True [] ''val'')],
            Some (MultiIndex [Index_init (TClass ''int'') [] ''i1'',
                              Index_init (TClass ''str'') [] ''i2'']))
 \<and> map idx_name [Index_init (TClass ''int'') [] ''i1'', Index_init (TClass ''str'') [] ''i2'']
     = [Some ''i1'', Some ''i2'']"
proof -
  have h: "build_loop ex_indexes ''Multi'' [] ex_indexes_annotations ([], [])
     = Inr ([(''val'', Column_init (TClass ''float'') True [] ''val'')],
            [Index_init (TClass ''int'') [] ''i1'', Index_init (TClass ''str'') [] ''i2''])"
    by code_simp
  from index_composition[OF h] h show ?thesis
    by (simp add: Index_init_def)
qed

subsection \<open>Classes and states\<close>

lemma map_of_map_entry:
  "map_of (map (\<lambda>(n, k). if n = c then (n, f k) else (n, k)) xs) c' =
     (if c' = c then map_option f (map_of xs c) else map_of xs c')"
  by (induction xs) auto

lemma map_of_update_class:
  "map_of (st_classes (update_class c f st)) c' =
     (if c' = c then map_option f (map_of (st_classes st) c) else map_of (st_classes st) c')"
  by (simp add: update_class_def map_of_map_entry)

lemma get_class_update_class:
  "get_class (update_class c f st) c' =
     (if c' = c \<and> in_table st c then f (get_class st c) else get_class st c')"
  by (auto simp: get_class_def map_of_update_class in_table_def split: option.splits)

lemma in_table_update_class [simp]: "in_table (update_class c f st) c' = in_table st c'"
  by (simp add: in_table_def map_of_update_class)

lemma update_class_other [simp]:
  "st_heap (update_class c f st) = st_heap st"
  "st_warnings (update_class c f st) = st_warnings st"
  "map fst (st_classes (update_class c f st)) = map fst (st_classes st)"
  by (auto simp: update_class_def)

lemma get_class_warnings [simp]: "get_class (st\<lparr>st_warnings := w\<rparr>) c = get_class st c"
  by (simp add: get_class_def)

lemma get_class_heap [simp]: "get_class (st\<lparr>st_heap := h\<rparr>) c = get_class st c"
  by (simp add: get_class_def)

lemma in_table_fields [simp]:
  "in_table (st\<lparr>st_warnings := w\<rparr>) c = in_table st c"
  "in_table (st\<lparr>st_heap := h\<rparr>) c = in_table st c"
  by (simp_all add: in_table_def)

lemma not_in_table_annotations: "\<not> in_table st c \<Longrightarrow> cls_annotations (get_class st c) = []"
  by (simp add: in_table_def get_class_def)

lemma not_in_table_dict: "\<not> in_table st c \<Longrightarrow> cls_dict (get_class st c) = [] \<and> cls_ancestors (get_class st c) = []"
  by (simp add: in_table_def get_class_def)

lemma same_namespaces_refl [simp]: "same_namespaces st st"
  by (simp add: same_namespaces_def)

lemma same_namespaces_trans:
  "same_namespaces st st1 \<Longrightarrow> same_namespaces st1 st2 \<Longrightarrow> same_namespaces st st2"
  by (simp add: same_namespaces_def)

lemma same_namespaces_getmro: "same_namespaces st st' \<Longrightarrow> getmro st' c = getmro st c"
  by (simp add: same_namespaces_def getmro_def)

lemma same_namespaces_lookup_mro:
  "same_namespaces st st' \<Longrightarrow> lookup_mro st' cs n = lookup_mro st cs n"
  by (induction cs) (simp_all add: same_namespaces_def split: option.splits)

lemma same_namespaces_getattr: "same_namespaces st st' \<Longrightarrow> getattr st' c n = getattr st c n"
  by (simp add: getattr_def same_namespaces_getmro same_namespaces_lookup_mro)

lemma same_namespaces_dir_cls: "same_namespaces st st' \<Longrightarrow> dir_cls st' c = dir_cls st c"
  using same_namespaces_getmro[of st st' c] by (simp add: dir_cls_def same_namespaces_def)

lemma same_namespaces_getmembers:
  "same_namespaces st st' \<Longrightarrow> getmembers st' c p = getmembers st c p"
  by (simp add: getmembers_def same_namespaces_dir_cls same_namespaces_getattr)

lemma same_namespaces_model_bases:
  "same_namespaces st st' \<Longrightarrow> model_bases st' c = model_bases st c"
  by (simp add: model_bases_def same_namespaces_getmro)

lemma scan_members_filter:
  "fst (scan_members ns anns m) =
     filter (\<lambda>e. \<not> (fst e \<in> set ns \<and> startswith (fst e) ''_'')) anns"
proof (induction ns arbitrary: anns m)
  case Nil
  then show ?case by simp
next
  case (Cons x xs)
  have del: "AList.delete x anns = filter (\<lambda>e. fst e \<noteq> x) anns"
    by (induction anns) (auto simp: AList.delete_eq)
  show ?case
    by (auto simp: Cons.IH del intro!: filter_cong)
qed

lemma kept_annotations_filter:
  "kept_annotations st c =
     filter (\<lambda>e. \<not> (fst e \<in> fst ` set (getmembers st c (\<lambda>x. \<not> isroutine x))
                   \<and> startswith (fst e) ''_''))
       (cls_annotations (get_class st c))"
  by (simp add: kept_annotations_def scan_members_filter)

text \<open>What one call of \<^verbatim>\<open>_get_field_annotations\<close> does.\<close>

lemma get_field_annotations_Inl:
  assumes "get_field_annotations c st = (Inl e, st')"
  shows "st' = st \<and> e = SchemaInitError (NotAnnotated c) \<and> cls_annotations (get_class st c) = []"
  using assms
  by (auto simp: get_field_annotations_def Let_def split: if_splits prod.splits)

lemma get_field_annotations_Inr:
  assumes "get_field_annotations c st = (Inr a, st')"
  shows "a = kept_annotations st c"
    and "cls_annotations (get_class st c) \<noteq> []"
    and "in_table st c"
    and "same_namespaces st st'"
    and "cls_annotations (get_class st' c') =
           (if c' = c then kept_annotations st c else cls_annotations (get_class st c'))"
    and "st_heap st' = st_heap st"
    and "map fst (st_classes st') = map fst (st_classes st)"
    and "in_table st' c' = in_table st c'"
proof -
  from assms have ne: "cls_annotations (get_class st c) \<noteq> []"
    by (auto simp: get_field_annotations_def Let_def split: if_splits)
  then show "cls_annotations (get_class st c) \<noteq> []" .
  from ne show it: "in_table st c"
    using not_in_table_annotations by blast
  from assms ne show a: "a = kept_annotations st c"
    by (auto simp: get_field_annotations_def Let_def kept_annotations_def
        split: if_splits prod.splits)
  from assms ne have st': "st' = update_class c (\<lambda>k. k\<lparr>cls_annotations := a\<rparr>) st
      \<or> (\<exists>w. st' = (update_class c (\<lambda>k. k\<lparr>cls_annotations := a\<rparr>) st)\<lparr>st_warnings := w\<rparr>)"
    by (auto simp: get_field_annotations_def Let_def split: if_splits prod.splits)
  then show "same_namespaces st st'"
    by (auto simp: same_namespaces_def get_class_update_class)
  from st' it a show "cls_annotations (get_class st' c') =
           (if c' = c then kept_annotations st c else cls_annotations (get_class st c'))"
    by (auto simp: get_class_update_class)
  from st' show "st_heap st' = st_heap st" by auto
  from st' show "map fst (st_classes st') = map fst (st_classes st)" by auto
  from st' show "in_table st' c' = in_table st c'" by auto
qed

lemma kept_annotations_step:
  assumes "get_field_annotations c st = (Inr a, st')"
  shows "kept_annotations st' c' = kept_annotations st c'"
proof -
  note f = get_field_annotations_Inr[OF assms]
  have m: "getmembers st' c' p = getmembers st c' p" for p
    using f(4) by (rule same_namespaces_getmembers)
  show ?thesis
  proof (cases "c' = c")
    case True
    then show ?thesis
      unfolding kept_annotations_filter[of st'] m f(5)
      by (simp add: kept_annotations_filter)
  next
    case False
    then show ?thesis
      unfolding kept_annotations_filter[of st'] m f(5)
      by (simp add: kept_annotations_filter)
  qed
qed

subsection \<open>The annotation collector\<close>

lemma inherit_loop_not_annotated:
  assumes "b \<in> set bases" and "cls_annotations (get_class st b) = []"
  shows "\<exists>c st'. inherit_loop bases acc st = (Inl (SchemaInitError (NotAnnotated c)), st')
            \<and> c \<in> set bases"
  using assms
proof (induction bases arbitrary: acc st)
  case Nil
  then show ?case by simp
next
  case (Cons x xs)
  obtain r st1 where g: "get_field_annotations x st = (r, st1)"
    by (cases "get_field_annotations x st")
  show ?case
  proof (cases r)
    case (Inl e)
    with g get_field_annotations_Inl[of x st e st1] show ?thesis by simp
  next
    case (Inr a)
    note f = get_field_annotations_Inr[OF g[unfolded Inr]]
    from f(2) Cons.prems(2) have "b \<noteq> x" by auto
    with Cons.prems(1) have bx: "b \<in> set xs" by simp
    from f(5)[of b] \<open>b \<noteq> x\<close> Cons.prems(2) have "cls_annotations (get_class st1 b) = []"
      by simp
    from Cons.IH[OF bx this, of "dict_update acc a"] g Inr show ?thesis by auto
  qed
qed

lemma map_of_dict_update: "map_of (dict_update d other) = map_of d ++ map_of (rev other)"
proof -
  have "map_of (fold (\<lambda>(k, v). AList.update k v) other d) = map_of d ++ map_of (rev other)"
  proof (induction other arbitrary: d)
    case Nil
    then show ?case by simp
  next
    case (Cons e es)
    obtain k v where e: "e = (k, v)" by (cases e)
    have "map_of (fold (\<lambda>(k, v). AList.update k v) es (AList.update k v d))
            = map_of (AList.update k v d) ++ map_of (rev es)"
      by (rule Cons.IH)
    also have "\<dots> = map_of d ++ map_of (rev ((k, v) # es))"
      by (rule ext) (auto simp: update_conv' map_add_def split: option.splits)
    finally show ?case by (simp add: e)
  qed
  then show ?thesis by (simp add: dict_update_def)
qed

lemma inherit_loop_Inr:
  assumes "inherit_loop bases acc st = (Inr ann, st')"
  shows "map_of ann =
           foldl (++) (map_of acc) (map (\<lambda>b. map_of (rev (kept_annotations st b))) bases)"
  using assms
proof (induction bases arbitrary: acc st)
  case Nil
  then show ?case by simp
next
  case (Cons x xs)
  from Cons.prems obtain a st1 where
    g: "get_field_annotations x st = (Inr a, st1)" and
    r: "inherit_loop xs (dict_update acc a) st1 = (Inr ann, st')"
    by (auto split: prod.splits sum.splits)
  have k: "kept_annotations st1 b = kept_annotations st b" for b
    using kept_annotations_step[OF g] .
  from Cons.IH[OF r] show ?case
    by (simp add: k map_of_dict_update get_field_annotations_Inr(1)[OF g])
qed

lemma most_derived_wins:
  assumes "i < length xs" and "f (xs ! i) k = Some t" and "\<forall>j<i. f (xs ! j) k = None"
  shows "foldl (++) m (map f (rev xs)) k = Some t"
  using assms
proof (induction xs arbitrary: i)
  case Nil
  then show ?case by simp
next
  case (Cons x xs)
  show ?case
  proof (cases i)
    case 0
    with Cons.prems show ?thesis by simp
  next
    case (Suc i')
    from Cons.prems Suc have a: "i' < length xs" "f (xs ! i') k = Some t" by simp_all
    from Cons.prems(3) Suc have b: "\<forall>j<i'. f (xs ! j) k = None" by auto
    from Cons.prems(3) Suc have c: "f x k = None" by auto
    from Cons.IH[OF a b] c show ?thesis by (simp add: map_add_def)
  qed
qed

lemma collector_step_refl: "collector_step st st"
  by (simp add: collector_step_def)

lemma collector_step_trans:
  assumes "collector_step st st1" and "collector_step st1 st2"
  shows "collector_step st st2"
  using assms unfolding collector_step_def
  by (metis same_namespaces_trans)

lemma get_field_annotations_step:
  assumes "get_field_annotations c st = (r, st')"
  shows "collector_step st st'"
proof (cases r)
  case (Inl e)
  with assms get_field_annotations_Inl[of c st e st'] show ?thesis
    by (simp add: collector_step_refl)
next
  case (Inr a)
  note g = assms[unfolded Inr]
  note f = get_field_annotations_Inr[OF g]
  show ?thesis
    unfolding collector_step_def
    using f(4) f(6) f(7) f(8) kept_annotations_step[OF g] f(5)
    by auto
qed

lemma inherit_loop_step:
  "inherit_loop bases acc st = (r, st') \<Longrightarrow> collector_step st st'"
proof (induction bases arbitrary: acc st)
  case Nil
  then show ?case by (simp add: collector_step_refl)
next
  case (Cons x xs)
  obtain r1 st1 where g: "get_field_annotations x st = (r1, st1)"
    by (cases "get_field_annotations x st")
  note s1 = get_field_annotations_step[OF g]
  show ?case
  proof (cases r1)
    case (Inl e)
    with Cons.prems g s1 show ?thesis by simp
  next
    case (Inr a)
    with Cons.prems g have "inherit_loop xs (dict_update acc a) st1 = (r, st')" by simp
    from Cons.IH[OF this] s1 show ?thesis by (rule collector_step_trans[rotated])
  qed
qed

lemma getattr_in_table: "getattr st cls n = Some v \<Longrightarrow> in_table st cls"
proof (rule ccontr)
  assume a: "getattr st cls n = Some v" and "\<not> in_table st cls"
  from not_in_table_dict[OF this(2)] a show False
    by (simp add: getattr_def getmro_def)
qed

lemma store_schema_getattr:
  assumes "in_table st cls" and "store_schema cls schema st = (v, st')"
  shows "getattr st' cls ''__schema__'' = Some v"
  using assms
  by (auto simp: store_schema_def Let_def getattr_def getmro_def get_class_update_class
      update_conv')

lemma store_schema_truthy: "store_schema cls schema st = (v, st') \<Longrightarrow> truthy v"
  by (auto simp: store_schema_def Let_def)

text \<open>The collector changes the annotations of the classes it walks only.\<close>

lemma get_field_annotations_outside:
  assumes "get_field_annotations c st = (r, st')"
  shows "c' \<noteq> c \<Longrightarrow> cls_annotations (get_class st' c') = cls_annotations (get_class st c')"
    and "take (length (st_warnings st)) (st_warnings st') = st_warnings st"
proof -
  show "c' \<noteq> c \<Longrightarrow> cls_annotations (get_class st' c') = cls_annotations (get_class st c')"
  proof (cases r)
    case (Inl e)
    with assms get_field_annotations_Inl[of c st e st'] show ?thesis by simp
  next
    case (Inr a)
    assume "c' \<noteq> c"
    with get_field_annotations_Inr(5)[OF assms[unfolded Inr], of c'] show ?thesis by simp
  qed
  from assms show "take (length (st_warnings st)) (st_warnings st') = st_warnings st"
    by (auto simp: get_field_annotations_def Let_def split: if_splits prod.splits)
qed

lemma inherit_loop_outside:
  assumes "inherit_loop bases acc st = (r, st')"
  shows "(\<forall>c. c \<notin> set bases \<longrightarrow>
            cls_annotations (get_class st' c) = cls_annotations (get_class st c))
       \<and> take (length (st_warnings st)) (st_warnings st') = st_warnings st"
  using assms
proof (induction bases arbitrary: acc st)
  case Nil
  then show ?case by simp
next
  case (Cons x xs)
  obtain r1 st1 where g: "get_field_annotations x st = (r1, st1)"
    by (cases "get_field_annotations x st")
  note o = get_field_annotations_outside[OF g]
  show ?case
  proof (cases r1)
    case (Inl e)
    with Cons.prems g o show ?thesis by auto
  next
    case (Inr a)
    with Cons.prems g have "inherit_loop xs (dict_update acc a) st1 = (r, st')" by simp
    from Cons.IH[OF this] have
      i1: "\<forall>c. c \<notin> set xs \<longrightarrow>
             cls_annotations (get_class st' c) = cls_annotations (get_class st1 c)" and
      i2: "take (length (st_warnings st1)) (st_warnings st') = st_warnings st1"
      by simp_all
    from i2 o(2) have "take (length (st_warnings st)) (st_warnings st') = st_warnings st"
      by (metis append_eq_conv_conj append_take_drop_id append.assoc)
    with i1 o(1) show ?thesis by auto
  qed
qed

text \<open>The four ways a call of \<^verbatim>\<open>to_schema\<close> can go.\<close>

lemma to_schema_cases:
  assumes "to_schema re_compile cls st = (r, st')"
  obtains (no_attr) "getattr st cls ''__schema__'' = None" "r = Inl AttributeError" "st' = st"
  | (cached) v where "getattr st cls ''__schema__'' = Some v" "truthy v" "r = Inr v" "st' = st"
  | (failed) v e r1 where "getattr st cls ''__schema__'' = Some v" "\<not> truthy v" "r = Inl e"
      "inherit_field_annotations cls st = (r1, st')"
  | (compiled) v annotations st1 schema w where "getattr st cls ''__schema__'' = Some v"
      "\<not> truthy v" "inherit_field_annotations cls st = (Inr annotations, st1)"
      "store_schema cls schema st1 = (w, st')" "r = Inr w"
  using assms unfolding to_schema_def
  by (auto split: option.splits if_splits prod.splits sum.splits)

lemma store_schema_frame:
  assumes "in_table st cls" and "store_schema cls schema st = (w, st')"
  shows "map fst (st_classes st') = map fst (st_classes st)"
    and "cls_ancestors (get_class st' c) = cls_ancestors (get_class st c)"
    and "cls_annotations (get_class st' c) = cls_annotations (get_class st c)"
    and "c \<noteq> cls \<Longrightarrow> cls_dict (get_class st' c) = cls_dict (get_class st c)"
    and "cls_dict (get_class st' cls) = AList.update ''__schema__'' w (cls_dict (get_class st cls))"
    and "st_heap st' = st_heap st @ [schema]"
    and "st_warnings st' = st_warnings st"
  using assms
  by (auto simp: store_schema_def Let_def get_class_update_class)

text \<open>
  C6. When \<^verbatim>\<open>to_schema\<close> finds no cached schema and so compiles, and some
  class of the walked chain \<^verbatim>\<open>getmro(cls)[:-2]\<close> has no annotations of its
  own, the call fails with the declaration error "... is not annotated" for a
  class of the chain.
\<close>

theorem unannotated_class_fails:
  assumes "getattr st cls ''__schema__'' = Some cached" and "\<not> truthy cached"
      and "base \<in> set (model_bases st cls)"
      and "cls_annotations (get_class st base) = []"
  shows "\<exists>c. c \<in> set (model_bases st cls)
           \<and> fst (to_schema re_compile cls st) = Inl (SchemaInitError (NotAnnotated c))"
proof -
  from assms(3) have "base \<in> set (rev (model_bases st cls))" by simp
  from inherit_loop_not_annotated[OF this assms(4), of "[]"]
  obtain c st' where
    "inherit_field_annotations cls st = (Inl (SchemaInitError (NotAnnotated c)), st')"
    "c \<in> set (model_bases st cls)"
    by (auto simp: inherit_field_annotations_def)
  with assms(1,2) show ?thesis
    by (auto simp: to_schema_def)
qed

theorem unannotated_class_fails_witness:
  "getattr ex_empty ''Empty'' ''__schema__'' = Some VNone
 \<and> \<not> truthy VNone
 \<and> ''Empty'' \<in> set (model_bases ex_empty ''Empty'')
 \<and> cls_annotations (get_class ex_empty ''Empty'') = []
 \<and> fst (to_schema simple_re ''Empty'' ex_empty) = Inl (SchemaInitError (NotAnnotated ''Empty''))"
proof -
  have h1: "getattr ex_empty ''Empty'' ''__schema__'' = Some VNone" by code_simp
  have h2: "\<not> truthy VNone" by simp
  have h3: "''Empty'' \<in> set (model_bases ex_empty ''Empty'')" by code_simp
  have h4: "cls_annotations (get_class ex_empty ''Empty'') = []" by code_simp
  have r: "fst (to_schema simple_re ''Empty'' ex_empty)
             = Inl (SchemaInitError (NotAnnotated ''Empty''))" by code_simp
  from unannotated_class_fails[OF h1 h2 h3 h4, of simple_re] h1 h2 h3 h4 r
  show ?thesis by simp
qed

text \<open>
  The collector on its own: the bases \<^verbatim>\<open>getmro(cls)[:-2]\<close> are processed
  from the last to the first, and a later class overrides an earlier one by
  field name. For a field name \<open>k\<close> that the collector keeps for the class at
  position \<open>i\<close> of the chain and keeps for no class before it in the chain
  (no more derived class), the collected map gives \<open>k\<close> a type that this
  class declares for \<open>k\<close>.
\<close>

lemma most_derived_kept_annotation_wins:
  assumes "inherit_field_annotations cls st = (Inr annotations, st')"
      and "i < length (model_bases st cls)"
      and "k \<in> fst ` set (kept_annotations st (model_bases st cls ! i))"
      and "\<forall>j<i. k \<notin> fst ` set (kept_annotations st (model_bases st cls ! j))"
  shows "\<exists>t. map_of annotations k = Some t
           \<and> (k, t) \<in> set (kept_annotations st (model_bases st cls ! i))"
proof -
  let ?f = "\<lambda>b. map_of (rev (kept_annotations st b))"
  from assms(3) obtain t where t: "?f (model_bases st cls ! i) k = Some t"
    by (cases "?f (model_bases st cls ! i) k") (auto simp: map_of_eq_None_iff)
  then have mem: "(k, t) \<in> set (kept_annotations st (model_bases st cls ! i))"
    by (auto dest: map_of_SomeD)
  from assms(4) have none: "\<forall>j<i. ?f (model_bases st cls ! j) k = None"
    by (simp add: map_of_eq_None_iff)
  from assms(1) have "map_of annotations =
      foldl (++) (map_of []) (map ?f (rev (model_bases st cls)))"
    unfolding inherit_field_annotations_def by (rule inherit_loop_Inr)
  then have "map_of annotations k = Some t"
    using most_derived_wins[of i "model_bases st cls" ?f k t Map.empty, OF assms(2) t none]
    by simp
  with mem show ?thesis by blast
qed

text \<open>
  A name with a leading underscore is popped only where it is bound to a
  non-routine attribute: \<^verbatim>\<open>Child\<close> re-declares \<^verbatim>\<open>_x\<close> of \<^verbatim>\<open>Parent\<close> as
  \<^verbatim>\<open>Series[str]\<close> with a \<^verbatim>\<open>Field\<close>, the annotation of \<^verbatim>\<open>Child\<close> is
  popped and that of \<^verbatim>\<open>Parent\<close>, which has no value, stays.
\<close>

lemma protected_name_popped_only_when_bound:
  "map_of (cls_annotations (get_class ex_inherit ''Child'')) ''_x'' = Some (TSeries (TClass ''str''))
 \<and> map_of (cls_annotations (get_class ex_inherit ''Parent'')) ''_x''
     = Some (TSeries (TClass ''int''))
 \<and> fst (inherit_field_annotations ''Child'' ex_inherit)
     = Inr [(''_x'', TSeries (TClass ''int'')), (''y'', TSeries (TClass ''str''))]"
  by code_simp

text \<open>
  C5. \<^verbatim>\<open>Child\<close> re-declares the field \<^verbatim>\<open>a\<close> of \<^verbatim>\<open>Parent\<close> with the
  type \<^verbatim>\<open>str\<close>. The collected annotation map has the type of \<^verbatim>\<open>Child\<close>,
  and so has the schema when \<^verbatim>\<open>Child\<close> is the first class compiled. But
  \<^verbatim>\<open>to_schema\<close> reads \<^verbatim>\<open>cls.__schema__\<close> along the resolution order:
  once \<^verbatim>\<open>Parent\<close> has been compiled, the call on \<^verbatim>\<open>Child\<close> finds the
  schema cached on \<^verbatim>\<open>Parent\<close>, returns it and compiles nothing, so the
  schema of \<^verbatim>\<open>Child\<close> has the type \<^verbatim>\<open>int\<close> of \<^verbatim>\<open>Parent\<close>.
\<close>

theorem child_returns_parent_schema:
  "fst (inherit_field_annotations ''Child'' ex_override) = Inr [(''a'', TSeries (TClass ''str''))]
 \<and> fst (to_schema simple_re ''Child'' ex_override) = Inr (VRef 0)
 \<and> st_heap (snd (to_schema simple_re ''Child'' ex_override))
     = [\<lparr>schema_columns = [(''a'', Column_init (TClass ''str'') True [] ''a'')],
         schema_index = None\<rparr>]
 \<and> fst (to_schema simple_re ''Parent'' ex_override) = Inr (VRef 0)
 \<and> getattr (snd (to_schema simple_re ''Parent'' ex_override)) ''Child'' ''__schema__''
     = Some (VRef 0)
 \<and> fst (to_schema simple_re ''Child'' (snd (to_schema simple_re ''Parent'' ex_override)))
     = Inr (VRef 0)
 \<and> st_heap (snd (to_schema simple_re ''Child''
                    (snd (to_schema simple_re ''Parent'' ex_override))))
     = [\<lparr>schema_columns = [(''a'', Column_init (TClass ''int'') True [] ''a'')],
         schema_index = None\<rparr>]"
  by code_simp

lemma to_schema_compiled:
  assumes "to_schema re_compile cls st = (Inr v, st')"
      and "getattr st cls ''__schema__'' = Some c" and "\<not> truthy c"
  shows "\<exists>annotations st1 checks columns index.
           inherit_field_annotations cls st = (Inr annotations, st1)
         \<and> validators_loop re_compile (map snd (getmembers st1 cls isfunction))
              (map fst annotations) [] = Inr checks
         \<and> build_columns_index st1 cls checks annotations = Inr (columns, index)
         \<and> store_schema cls \<lparr>schema_columns = columns, schema_index = index\<rparr> st1 = (v, st')"
  using assms unfolding to_schema_def
  by (auto split: option.splits if_splits prod.splits sum.splits)

lemma store_schema_result:
  assumes "in_table st cls" and "store_schema cls schema st = (v, st')"
  shows "v = VRef (length (st_heap st))"
    and "st_heap st' = st_heap st @ [schema]"
    and "map_of (cls_dict (get_class st' cls)) ''__schema__'' = Some v"
  using assms
  by (auto simp: store_schema_def Let_def get_class_update_class update_conv')

text \<open>
  C1. When a call of \<^verbatim>\<open>to_schema\<close> on a class returns a schema, the class
  holds it afterwards: \<^verbatim>\<open>cls.__schema__\<close> is the returned value and is true,
  and the next call on the class returns the same reference and leaves the
  state as it is (no schema object is allocated, no class is changed and no
  warning is emitted). A first call that finds a true \<^verbatim>\<open>cls.__schema__\<close>
  returns it without any change of state. A first call that finds a false one
  compiles: it returns a reference to a new object at the end of the heap, which
  is the \<^verbatim>\<open>DataFrameSchema\<close> of the columns and the index that
  \<^verbatim>\<open>_build_columns_index\<close> builds from the collected annotations and the
  checks of the validators, and it writes that reference to \<^verbatim>\<open>__schema__\<close>
  in the namespace of the class itself.
\<close>

theorem to_schema_cached:
  assumes "to_schema re_compile cls st = (Inr v, st')"
  shows "getattr st' cls ''__schema__'' = Some v \<and> truthy v
       \<and> to_schema re_compile cls st' = (Inr v, st')
       \<and> (\<forall>c. getattr st cls ''__schema__'' = Some c \<and> truthy c \<longrightarrow> v = c \<and> st' = st)
       \<and> (\<forall>c. getattr st cls ''__schema__'' = Some c \<and> \<not> truthy c \<longrightarrow>
             (\<exists>annotations st1 checks columns index.
                 inherit_field_annotations cls st = (Inr annotations, st1)
               \<and> validators_loop re_compile (map snd (getmembers st1 cls isfunction))
                    (map fst annotations) [] = Inr checks
               \<and> build_columns_index st1 cls checks annotations = Inr (columns, index)
               \<and> v = VRef (length (st_heap st))
               \<and> st_heap st' = st_heap st
                    @ [\<lparr>schema_columns = columns, schema_index = index\<rparr>]
               \<and> map_of (cls_dict (get_class st' cls)) ''__schema__'' = Some v))"
  using assms
proof (cases rule: to_schema_cases)
  case no_attr
  then show ?thesis by simp
next
  case (cached w)
  then show ?thesis by (simp add: to_schema_def)
next
  case (failed w e r1)
  then show ?thesis by simp
next
  case (compiled c annotations0 st0 schema0 w)
  from to_schema_compiled[OF assms compiled(1,2)] obtain annotations st1 checks columns index
    where d: "inherit_field_annotations cls st = (Inr annotations, st1)"
      "validators_loop re_compile (map snd (getmembers st1 cls isfunction))
         (map fst annotations) [] = Inr checks"
      "build_columns_index st1 cls checks annotations = Inr (columns, index)"
      "store_schema cls \<lparr>schema_columns = columns, schema_index = index\<rparr> st1 = (v, st')"
    by blast
  from compiled(1) have "in_table st cls" by (rule getattr_in_table)
  moreover from d(1) have cs: "collector_step st st1"
    unfolding inherit_field_annotations_def by (rule inherit_loop_step)
  ultimately have it: "in_table st1 cls" by (simp add: collector_step_def)
  from cs have heap: "st_heap st1 = st_heap st" by (simp add: collector_step_def)
  note r = store_schema_result[OF it d(4)]
  have 1: "getattr st' cls ''__schema__'' = Some v" "truthy v"
    using store_schema_getattr[OF it d(4)] store_schema_truthy[OF d(4)] by simp_all
  then have 2: "to_schema re_compile cls st' = (Inr v, st')"
    by (simp add: to_schema_def)
  have 3: "\<exists>annotations st1 checks columns index.
                 inherit_field_annotations cls st = (Inr annotations, st1)
               \<and> validators_loop re_compile (map snd (getmembers st1 cls isfunction))
                    (map fst annotations) [] = Inr checks
               \<and> build_columns_index st1 cls checks annotations = Inr (columns, index)
               \<and> v = VRef (length (st_heap st))
               \<and> st_heap st' = st_heap st
                    @ [\<lparr>schema_columns = columns, schema_index = index\<rparr>]
               \<and> map_of (cls_dict (get_class st' cls)) ''__schema__'' = Some v"
    using d(1,2,3) r heap by auto
  from 1 2 3 compiled(1,2) show ?thesis by auto
qed

theorem to_schema_cached_witness:
  "fst (to_schema simple_re ''Schema'' ex_basic) = Inr (VRef 0)
 \<and> getattr ex_basic ''Schema'' ''__schema__'' = Some VNone
 \<and> getattr (snd (to_schema simple_re ''Schema'' ex_basic)) ''Schema'' ''__schema__''
     = Some (VRef 0)
 \<and> map_of (cls_dict (get_class (snd (to_schema simple_re ''Schema'' ex_basic)) ''Schema''))
       ''__schema__'' = Some (VRef 0)
 \<and> st_heap (snd (to_schema simple_re ''Schema'' ex_basic))
     = [\<lparr>schema_columns =
           [(''a'', Column_init (TClass ''int'') True [] ''a''),
            (''b'', Column_init (TClass ''str'') False [] ''b'')],
         schema_index = None\<rparr>]
 \<and> to_schema simple_re ''Schema'' (snd (to_schema simple_re ''Schema'' ex_basic))
     = (Inr (VRef 0), snd (to_schema simple_re ''Schema'' ex_basic))"
proof -
  have f: "fst (to_schema simple_re ''Schema'' ex_basic) = Inr (VRef 0)"
    by code_simp
  then have h: "to_schema simple_re ''Schema'' ex_basic
                  = (Inr (VRef 0), snd (to_schema simple_re ''Schema'' ex_basic))"
    by (simp add: prod_eq_iff)
  have g: "getattr ex_basic ''Schema'' ''__schema__'' = Some VNone"
    by code_simp
  have m: "map_of (cls_dict (get_class (snd (to_schema simple_re ''Schema'' ex_basic))
             ''Schema'')) ''__schema__'' = Some (VRef 0)"
    by code_simp
  have hp: "st_heap (snd (to_schema simple_re ''Schema'' ex_basic))
     = [\<lparr>schema_columns =
           [(''a'', Column_init (TClass ''int'') True [] ''a''),
            (''b'', Column_init (TClass ''str'') False [] ''b'')],
         schema_index = None\<rparr>]"
    by code_simp
  from to_schema_cached[OF h] f g m hp show ?thesis by simp
qed

text \<open>
  What a call of \<^verbatim>\<open>to_schema\<close>, successful or failing, leaves as it is: the
  set of classes, every resolution order, every class namespace but for the
  write of the returned schema to \<^verbatim>\<open>__schema__\<close> of the declaring class
  by a successful call, the schema objects and the warnings that existed
  before, and the annotation map of every class outside the walked chain. The
  annotation map of a class of the chain is as it was or is reduced to the
  annotations that the collector keeps.
\<close>

lemma to_schema_frame:
  assumes "to_schema re_compile cls st = (r, st')"
  shows "map fst (st_classes st') = map fst (st_classes st)
       \<and> (\<forall>c. cls_ancestors (get_class st' c) = cls_ancestors (get_class st c))
       \<and> (\<forall>c. cls_annotations (get_class st' c) = cls_annotations (get_class st c)
              \<or> cls_annotations (get_class st' c) = kept_annotations st c)
       \<and> (\<forall>c. c \<noteq> cls \<longrightarrow> cls_dict (get_class st' c) = cls_dict (get_class st c))
       \<and> (cls_dict (get_class st' cls) = cls_dict (get_class st cls)
            \<or> (\<exists>v. r = Inr v \<and> cls_dict (get_class st' cls)
                        = AList.update ''__schema__'' v (cls_dict (get_class st cls))))
       \<and> take (length (st_heap st)) (st_heap st') = st_heap st
       \<and> (\<forall>c. c \<notin> set (model_bases st cls) \<longrightarrow>
             cls_annotations (get_class st' c) = cls_annotations (get_class st c))
       \<and> take (length (st_warnings st)) (st_warnings st') = st_warnings st"
  using assms
proof (cases rule: to_schema_cases)
  case no_attr
  then show ?thesis by simp
next
  case (cached v)
  then show ?thesis by simp
next
  case (failed v e r1)
  from failed(4) have "collector_step st st'"
    unfolding inherit_field_annotations_def by (rule inherit_loop_step)
  moreover from failed(4) have
    "\<forall>c. c \<notin> set (model_bases st cls) \<longrightarrow>
         cls_annotations (get_class st' c) = cls_annotations (get_class st c)"
    "take (length (st_warnings st)) (st_warnings st') = st_warnings st"
    unfolding inherit_field_annotations_def
    using inherit_loop_outside[of "rev (model_bases st cls)" "[]" st r1 st'] by auto
  ultimately show ?thesis
    by (simp add: collector_step_def same_namespaces_def)
next
  case (compiled v annotations st1 schema w)
  from compiled(3) have cs: "collector_step st st1"
    unfolding inherit_field_annotations_def by (rule inherit_loop_step)
  from compiled(1) have "in_table st cls" by (rule getattr_in_table)
  with cs have it: "in_table st1 cls" by (simp add: collector_step_def)
  note f = store_schema_frame[OF it compiled(4)]
  have 1: "map fst (st_classes st') = map fst (st_classes st)"
    using f(1) cs by (simp add: collector_step_def)
  have 2: "cls_ancestors (get_class st' c) = cls_ancestors (get_class st c)" for c
    using f(2)[of c] cs by (simp add: collector_step_def same_namespaces_def)
  have 3: "cls_annotations (get_class st' c) = cls_annotations (get_class st c)
              \<or> cls_annotations (get_class st' c) = kept_annotations st c" for c
    using f(3)[of c] cs by (simp add: collector_step_def)
  have 4: "c \<noteq> cls \<Longrightarrow> cls_dict (get_class st' c) = cls_dict (get_class st c)" for c
    using f(4)[of c] cs by (simp add: collector_step_def same_namespaces_def)
  have 5: "cls_dict (get_class st' cls)
             = AList.update ''__schema__'' w (cls_dict (get_class st cls))"
    using f(5) cs by (simp add: collector_step_def same_namespaces_def)
  have 6: "take (length (st_heap st)) (st_heap st') = st_heap st"
    using f(6) cs by (simp add: collector_step_def)
  from compiled(3) have o:
    "\<forall>c. c \<notin> set (model_bases st cls) \<longrightarrow>
         cls_annotations (get_class st1 c) = cls_annotations (get_class st c)"
    "take (length (st_warnings st)) (st_warnings st1) = st_warnings st"
    unfolding inherit_field_annotations_def
    using inherit_loop_outside[of "rev (model_bases st cls)" "[]" st "Inr annotations" st1]
    by auto
  have 7: "c \<notin> set (model_bases st cls) \<Longrightarrow>
             cls_annotations (get_class st' c) = cls_annotations (get_class st c)" for c
    using f(3)[of c] o(1) by simp
  have 8: "take (length (st_warnings st)) (st_warnings st') = st_warnings st"
    using f(7) o(2) by simp
  from 1 2 3 4 5 6 7 8 compiled(5) show ?thesis by blast
qed

text \<open>
  C8. \<^verbatim>\<open>_get_field_annotations\<close> pops from \<^verbatim>\<open>cls.__annotations__\<close>
  itself, not from a copy. Compiling \<^verbatim>\<open>Protected\<close>, whose annotated
  attribute \<^verbatim>\<open>_d\<close> has a value, removes \<^verbatim>\<open>_d\<close> from the annotation map
  of the class. A failing run changes the class too: the first call on
  \<^verbatim>\<open>Flaky\<close> pops its only annotation and fails for the validator bound to
  an unknown field, and the second call on the same class fails for a class
  without annotations.
\<close>

theorem annotations_popped_in_place:
  "cls_annotations (get_class ex_protected ''Protected'')
     = [(''a'', TSeries (TClass ''int'')), (''_d'', TClass ''int'')]
 \<and> fst (to_schema simple_re ''Protected'' ex_protected) = Inr (VRef 0)
 \<and> cls_annotations (get_class (snd (to_schema simple_re ''Protected'' ex_protected))
       ''Protected'')
     = [(''a'', TSeries (TClass ''int''))]
 \<and> cls_annotations (get_class ex_unrepeatable ''Flaky'') = [(''_d'', TClass ''int'')]
 \<and> fst (to_schema simple_re ''Flaky'' ex_unrepeatable)
     = Inl (SchemaInitError (NonExistingField ''check_val'' ''val''))
 \<and> cls_annotations (get_class (snd (to_schema simple_re ''Flaky'' ex_unrepeatable)) ''Flaky'')
     = []
 \<and> fst (to_schema simple_re ''Flaky'' (snd (to_schema simple_re ''Flaky'' ex_unrepeatable)))
     = Inl (SchemaInitError (NotAnnotated ''Flaky''))"
  by code_simp

subsection \<open>Validator bindings\<close>

lemma set_update_set: "set (set_update matched items) = set matched \<union> set items"
proof -
  have "set (fold (\<lambda>x acc. if x \<in> set acc then acc else acc @ [x]) items matched)
          = set matched \<union> set items"
    by (induction items arbitrary: matched) auto
  then show ?thesis by (simp add: set_update_def)
qed

lemma set_update_distinct: "distinct matched \<Longrightarrow> distinct (set_update matched items)"
proof -
  have "distinct matched \<Longrightarrow>
        distinct (fold (\<lambda>x acc. if x \<in> set acc then acc else acc @ [x]) items matched)"
    by (induction items arbitrary: matched) auto
  then show "distinct matched \<Longrightarrow> distinct (set_update matched items)"
    by (simp add: set_update_def)
qed

lemma regex_filter_loop_Inr:
  assumes "\<forall>p \<in> set patterns. re_compile p \<noteq> None" and "distinct matched"
  shows "\<exists>res. regex_filter_loop re_compile seq patterns matched = Inr res
           \<and> set res = set matched \<union> regex_targets re_compile seq patterns
           \<and> distinct res"
  using assms
proof (induction patterns arbitrary: matched)
  case Nil
  then show ?case by (simp add: regex_targets_def)
next
  case (Cons p ps)
  from Cons.prems(1) obtain m where m: "re_compile p = Some m" by auto
  from Cons.prems(1) have ps: "\<forall>p \<in> set ps. re_compile p \<noteq> None" by simp
  let ?m1 = "set_update matched (filter m seq)"
  from Cons.IH[OF ps set_update_distinct[OF Cons.prems(2)], of "filter m seq"]
  obtain res where res: "regex_filter_loop re_compile seq ps ?m1 = Inr res"
    "set res = set ?m1 \<union> regex_targets re_compile seq ps" "distinct res"
    by blast
  have "set ?m1 \<union> regex_targets re_compile seq ps
          = set matched \<union> regex_targets re_compile seq (p # ps)"
    using m by (auto simp: set_update_set regex_targets_def) blast+
  with res m show ?case by simp
qed

lemma regex_filter_Inr:
  assumes "\<forall>p \<in> set patterns. re_compile p \<noteq> None"
  shows "\<exists>matched. regex_filter re_compile field_names patterns = Inr matched
           \<and> set matched = regex_targets re_compile field_names patterns
           \<and> distinct matched"
  using regex_filter_loop_Inr[OF assms, of "[]" field_names]
  by (simp add: regex_filter_def)

lemma bind_fields_Inr:
  assumes "set matched \<subseteq> set field_names" and "distinct matched"
  shows "\<exists>checks'. bind_fields fn_name chk field_names matched checks = Inr checks'
           \<and> (\<forall>f. map_of checks' f =
                 (if f \<in> set matched
                  then Some ((case map_of checks f of None \<Rightarrow> [] | Some cs \<Rightarrow> cs) @ [chk])
                  else map_of checks f))"
  using assms
proof (induction matched arbitrary: checks)
  case Nil
  then show ?case by simp
next
  case (Cons x xs)
  let ?c1 = "AList.update x ((case map_of checks x of None \<Rightarrow> [] | Some cs \<Rightarrow> cs) @ [chk]) checks"
  from Cons.prems have a: "set xs \<subseteq> set field_names" "distinct xs" "x \<in> set field_names"
    "x \<notin> set xs" by auto
  from Cons.IH[OF a(1,2), of ?c1] obtain checks' where
    c: "bind_fields fn_name chk field_names xs ?c1 = Inr checks'"
       "\<forall>f. map_of checks' f =
              (if f \<in> set xs
               then Some ((case map_of ?c1 f of None \<Rightarrow> [] | Some cs \<Rightarrow> cs) @ [chk])
               else map_of ?c1 f)"
    by blast
  have "\<forall>f. map_of checks' f =
                 (if f \<in> set (x # xs)
                  then Some ((case map_of checks f of None \<Rightarrow> [] | Some cs \<Rightarrow> cs) @ [chk])
                  else map_of checks f)"
    using c(2) a(4) by (auto simp: update_conv')
  with c(1) a(3) show ?case by simp
qed

lemma bind_fields_Inl:
  assumes "\<exists>f \<in> set matched. f \<notin> set field_names"
  shows "\<exists>f \<in> set matched. f \<notin> set field_names
           \<and> bind_fields fn_name chk field_names matched checks
               = Inl (SchemaInitError (NonExistingField fn_name f))"
  using assms
  by (induction matched arbitrary: checks) auto

lemma validators_loop_fails:
  assumes "fn \<in> set fns"
      and "\<And>checks. \<exists>e. update_checks re_compile checks fn field_names = Inl e"
  shows "\<exists>e. validators_loop re_compile fns field_names checks = Inl e"
  using assms(1)
proof (induction fns arbitrary: checks)
  case Nil
  then show ?case by simp
next
  case (Cons x xs)
  show ?case
  proof (cases "update_checks re_compile checks x field_names")
    case (Inl e)
    then show ?thesis by simp
  next
    case (Inr checks')
    with assms(2)[of checks] have "x \<noteq> fn" by auto
    with Cons.prems have "fn \<in> set xs" by simp
    from Cons.IH[OF this, of checks'] Inr show ?thesis by simp
  qed
qed

lemma foldl_map_add_None:
  "m k = None \<Longrightarrow> \<forall>x \<in> set xs. f x k = None \<Longrightarrow> foldl (++) m (map f xs) k = None"
  by (induction xs arbitrary: m) (simp_all add: map_add_def)

lemma kept_annotations_keys:
  "fst ` set (kept_annotations st c) \<subseteq> fst ` set (cls_annotations (get_class st c))"
  by (auto simp: kept_annotations_filter)

lemma inherit_undeclared:
  assumes "inherit_field_annotations cls st = (Inr annotations, st1)"
      and "\<forall>b \<in> set (model_bases st cls). f \<notin> fst ` set (cls_annotations (get_class st b))"
  shows "f \<notin> set (map fst annotations)"
proof -
  let ?f = "\<lambda>b. map_of (rev (kept_annotations st b))"
  have "?f b f = None" if "b \<in> set (model_bases st cls)" for b
  proof -
    from assms(2) that have "f \<notin> fst ` set (cls_annotations (get_class st b))" by blast
    with kept_annotations_keys[of st b] have "f \<notin> fst ` set (kept_annotations st b)" by blast
    then show ?thesis by (simp add: map_of_eq_None_iff)
  qed
  then have all: "\<forall>b \<in> set (rev (model_bases st cls)). ?f b f = None" by simp
  have "foldl (++) (map_of []) (map ?f (rev (model_bases st cls))) f = None"
    using all by (intro foldl_map_add_None) simp_all
  with inherit_loop_Inr[OF assms(1)[unfolded inherit_field_annotations_def]]
  have "map_of annotations f = None" by simp
  then show ?thesis by (simp add: map_of_eq_None_iff)
qed

lemma unknown_literal_field_fails:
  assumes "getattr st cls ''__schema__'' = Some cached" and "\<not> truthy cached"
      and "(m, VFunction fn_name (Some vc)) \<in> set (getmembers st cls isfunction)"
      and "\<not> vc_regex vc" and "f \<in> set (vc_fields vc)"
      and "\<forall>b \<in> set (model_bases st cls). f \<notin> fst ` set (cls_annotations (get_class st b))"
  shows "\<exists>e. fst (to_schema re_compile cls st) = Inl e"
proof (cases "inherit_field_annotations cls st")
  case (Pair r st1)
  show ?thesis
  proof (cases r)
    case (Inl e)
    with Pair assms(1,2) show ?thesis by (simp add: to_schema_def)
  next
    case (Inr annotations)
    note inh = Pair[unfolded Inr]
    from inherit_undeclared[OF inh assms(6)] have nf: "f \<notin> set (map fst annotations)" .
    from inh have "collector_step st st1"
      unfolding inherit_field_annotations_def by (rule inherit_loop_step)
    then have "getmembers st1 cls isfunction = getmembers st cls isfunction"
      by (simp add: collector_step_def same_namespaces_getmembers)
    with assms(3) have mem: "VFunction fn_name (Some vc)
        \<in> set (map snd (getmembers st1 cls isfunction))" by force
    have "\<exists>e. update_checks re_compile checks (VFunction fn_name (Some vc)) (map fst annotations)
             = Inl e" for checks
      using bind_fields_Inl[of "vc_fields vc" "map fst annotations" fn_name "vc_check vc" checks]
        assms(4,5) nf by auto
    from validators_loop_fails[OF mem this, of "[]"] obtain e where
      "validators_loop re_compile (map snd (getmembers st1 cls isfunction))
         (map fst annotations) [] = Inl e" by blast
    with inh assms(1,2) show ?thesis by (simp add: to_schema_def)
  qed
qed

text \<open>
  C2. For a binding in regex mode whose patterns all compile,
  \<^verbatim>\<open>_regex_filter\<close> returns the known field names that some pattern matches
  (the union over the patterns), and \<^verbatim>\<open>_update_checks\<close> appends the
  binding's check to the list of each of them and of no other field. With the
  example engine the pattern \<^verbatim>\<open>a.*\<close> selects \<^verbatim>\<open>abc\<close> alone of \<^verbatim>\<open>abc\<close>
  and \<^verbatim>\<open>xyz\<close>. A literal binding with a name that is no known field makes
  \<^verbatim>\<open>_update_checks\<close> raise the declaration error that names the validating
  function and such a name, and a compiling \<^verbatim>\<open>to_schema\<close> fails when a
  function member of the class carries a literal binding to a name that no
  class of the chain annotates.
\<close>

theorem validator_binding_resolution:
  "(vc_regex vc \<and> (\<forall>p \<in> set (vc_fields vc). re_compile p \<noteq> None) \<longrightarrow>
      (\<exists>matched checks'.
          regex_filter re_compile field_names (vc_fields vc) = Inr matched
        \<and> set matched = {f \<in> set field_names.
                           \<exists>p \<in> set (vc_fields vc). \<exists>m. re_compile p = Some m \<and> m f}
        \<and> update_checks re_compile checks (VFunction fn_name (Some vc)) field_names
            = Inr checks'
        \<and> (\<forall>f. map_of checks' f =
                 (if f \<in> set matched
                  then Some ((case map_of checks f of None \<Rightarrow> [] | Some cs \<Rightarrow> cs)
                             @ [vc_check vc])
                  else map_of checks f))))
 \<and> regex_filter simple_re [''abc'', ''xyz''] [''a.*''] = Inr [''abc'']
 \<and> (\<not> vc_regex vc \<and> (\<exists>f \<in> set (vc_fields vc). f \<notin> set field_names) \<longrightarrow>
      (\<exists>f \<in> set (vc_fields vc). f \<notin> set field_names
         \<and> update_checks re_compile checks (VFunction fn_name (Some vc)) field_names
             = Inl (SchemaInitError (NonExistingField fn_name f))))
 \<and> (getattr st cls ''__schema__'' = Some cached \<and> \<not> truthy cached
      \<and> (m, VFunction fn_name (Some vc)) \<in> set (getmembers st cls isfunction)
      \<and> \<not> vc_regex vc
      \<and> (\<exists>f \<in> set (vc_fields vc). \<forall>b \<in> set (model_bases st cls).
             f \<notin> fst ` set (cls_annotations (get_class st b))) \<longrightarrow>
      (\<exists>e. fst (to_schema re_compile cls st) = Inl e))"
proof (intro conjI impI)
  assume a: "vc_regex vc \<and> (\<forall>p \<in> set (vc_fields vc). re_compile p \<noteq> None)"
  from regex_filter_Inr[of "vc_fields vc" re_compile field_names] a
  obtain matched where m: "regex_filter re_compile field_names (vc_fields vc) = Inr matched"
    "set matched = regex_targets re_compile field_names (vc_fields vc)" "distinct matched"
    by blast
  from m(2) have sub: "set matched \<subseteq> set field_names"
    by (auto simp: regex_targets_def)
  from bind_fields_Inr[OF sub m(3), of fn_name "vc_check vc" checks]
  obtain checks' where c:
    "bind_fields fn_name (vc_check vc) field_names matched checks = Inr checks'"
    "\<forall>f. map_of checks' f =
          (if f \<in> set matched
           then Some ((case map_of checks f of None \<Rightarrow> [] | Some cs \<Rightarrow> cs) @ [vc_check vc])
           else map_of checks f)"
    by blast
  from a m(1) c(1) have
    "update_checks re_compile checks (VFunction fn_name (Some vc)) field_names = Inr checks'"
    by simp
  with m(1) m(2) c(2) show "\<exists>matched checks'.
          regex_filter re_compile field_names (vc_fields vc) = Inr matched
        \<and> set matched = {f \<in> set field_names.
                           \<exists>p \<in> set (vc_fields vc). \<exists>m. re_compile p = Some m \<and> m f}
        \<and> update_checks re_compile checks (VFunction fn_name (Some vc)) field_names
            = Inr checks'
        \<and> (\<forall>f. map_of checks' f =
                 (if f \<in> set matched
                  then Some ((case map_of checks f of None \<Rightarrow> [] | Some cs \<Rightarrow> cs)
                             @ [vc_check vc])
                  else map_of checks f))"
    unfolding regex_targets_def by blast
next
  show "regex_filter simple_re [''abc'', ''xyz''] [''a.*''] = Inr [''abc'']"
    by code_simp
next
  assume a: "\<not> vc_regex vc \<and> (\<exists>f \<in> set (vc_fields vc). f \<notin> set field_names)"
  then have "\<exists>f \<in> set (vc_fields vc). f \<notin> set field_names" by simp
  from bind_fields_Inl[OF this, of fn_name "vc_check vc" checks] a
  show "\<exists>f \<in> set (vc_fields vc). f \<notin> set field_names
         \<and> update_checks re_compile checks (VFunction fn_name (Some vc)) field_names
             = Inl (SchemaInitError (NonExistingField fn_name f))"
    by simp
next
  assume a: "getattr st cls ''__schema__'' = Some cached \<and> \<not> truthy cached
      \<and> (m, VFunction fn_name (Some vc)) \<in> set (getmembers st cls isfunction)
      \<and> \<not> vc_regex vc
      \<and> (\<exists>f \<in> set (vc_fields vc). \<forall>b \<in> set (model_bases st cls).
             f \<notin> fst ` set (cls_annotations (get_class st b)))"
  then obtain f where f: "f \<in> set (vc_fields vc)"
    "\<forall>b \<in> set (model_bases st cls). f \<notin> fst ` set (cls_annotations (get_class st b))"
    by blast
  from a have b: "getattr st cls ''__schema__'' = Some cached" "\<not> truthy cached"
    "(m, VFunction fn_name (Some vc)) \<in> set (getmembers st cls isfunction)" "\<not> vc_regex vc"
    by simp_all
  show "\<exists>e. fst (to_schema re_compile cls st) = Inl e"
    by (rule unknown_literal_field_fails[OF b f])
qed

theorem validator_binding_resolution_witness:
  "vc_regex ex_regex_binding
 \<and> simple_re ''a.*'' \<noteq> None
 \<and> update_checks simple_re [] (VFunction ''check_a'' (Some ex_regex_binding)) [''abc'', ''xyz'']
     = Inr [(''abc'', [Check ''check_a'' [] []])]
 \<and> \<not> vc_regex ex_literal_binding
 \<and> ''val'' \<notin> set [''abc'', ''xyz'']
 \<and> update_checks simple_re [] (VFunction ''check_val'' (Some ex_literal_binding))
       [''abc'', ''xyz'']
     = Inl (SchemaInitError (NonExistingField ''check_val'' ''val''))
 \<and> (''check_val'', VFunction ''check_val'' (Some ex_literal_binding))
       \<in> set (getmembers ex_unknown_field ''Unbound'' isfunction)
 \<and> fst (to_schema simple_re ''Unbound'' ex_unknown_field)
     = Inl (SchemaInitError (NonExistingField ''check_val'' ''val''))"
proof -
  have r: "vc_regex ex_regex_binding" "simple_re ''a.*'' \<noteq> None"
    by code_simp+
  have u1: "update_checks simple_re [] (VFunction ''check_a'' (Some ex_regex_binding))
              [''abc'', ''xyz''] = Inr [(''abc'', [Check ''check_a'' [] []])]"
    by code_simp
  have l: "\<not> vc_regex ex_literal_binding" "''val'' \<notin> set [''abc'', ''xyz'']"
    by code_simp+
  have u2: "update_checks simple_re [] (VFunction ''check_val'' (Some ex_literal_binding))
              [''abc'', ''xyz''] = Inl (SchemaInitError (NonExistingField ''check_val'' ''val''))"
    by code_simp
  have g: "(''check_val'', VFunction ''check_val'' (Some ex_literal_binding))
             \<in> set (getmembers ex_unknown_field ''Unbound'' isfunction)"
    by code_simp
  have t: "fst (to_schema simple_re ''Unbound'' ex_unknown_field)
             = Inl (SchemaInitError (NonExistingField ''check_val'' ''val''))"
    by code_simp
  from validator_binding_resolution[where vc = ex_literal_binding and re_compile = simple_re
      and field_names = "[''abc'', ''xyz'']" and checks = "[]" and fn_name = "''check_val''"
      and st = ex_unknown_field and cls = "''Unbound''" and cached = VNone
      and m = "''check_val''"]
    r u1 l u2 g t
  show ?thesis by simp
qed

end
